theory Spec2Isabelle
  imports Complex_Main "HOL-Library.Log_Nat" "HOL-Library.AList" "HOL-Library.Multiset"
    "HOL-Library.Sublist"
begin

section \<open>Python values, errors and library functions\<close>

text \<open>
  The program is \<^verbatim>\<open>stablecoin_weekly.py\<close>. Its inputs are decoded JSON documents, typed
  \<^verbatim>\<open>Any\<close> in the source, so the model has one type of Python values. A \<^verbatim>\<open>dict\<close> is an
  association list in insertion order, read with \<open>map_of\<close> and written with
  \<open>AList.update\<close> (which overwrites in place or appends, as a Python dict does). JSON object
  keys are strings.

  Scope of the embedding. Strings are lists of characters with code points below 128; case
  mapping and whitespace are those of ASCII. A float is a finite binary64 number, written as
  the real number it denotes: every arithmetic operation rounds to nearest, ties to even, with
  53 significant bits. Infinities, NaN, the sign of zero, overflow and gradual underflow of
  float arithmetic are outside the model.
\<close>

datatype pyval =
    PNone
  | PBool bool
  | PInt int
  | PFloat real
  | PStr string
  | PList "pyval list"
  | PDict "(string \<times> pyval) list"

type_synonym pydict = "(string \<times> pyval) list"

datatype error =
    WeeklyReportError string
  | TypeError
  | ValueError
  | OverflowError
  | AttributeError
  | IndexError
  | KeyError string
  | RequestError string

text \<open>The specification calls \<^verbatim>\<open>WeeklyReportError\<close> the error kind DataUnavailable.\<close>

fun is_data_unavailable :: "error \<Rightarrow> bool" where
  "is_data_unavailable (WeeklyReportError m) = True"
| "is_data_unavailable e = False"

text \<open>
  Library functions whose result depends on text the program does not inspect itself are
  parameters of the model: \<^verbatim>\<open>json.loads\<close> (\<open>None\<close> is \<^verbatim>\<open>JSONDecodeError\<close>), \<^verbatim>\<open>float\<close> and \<^verbatim>\<open>int\<close>
  of a string (\<open>None\<close> is \<^verbatim>\<open>ValueError\<close>) and \<^verbatim>\<open>str\<close> of a value that is not a string.
\<close>

record pylib =
  json_loads :: "string \<Rightarrow> pyval option"
  float_of_str :: "string \<Rightarrow> real option"
  int_of_str :: "string \<Rightarrow> int option"
  str_of :: "pyval \<Rightarrow> string"

text \<open>\<^verbatim>\<open>d.get(k)\<close>: the value, or \<^verbatim>\<open>None\<close> for a missing key.\<close>

definition py_get :: "pydict \<Rightarrow> string \<Rightarrow> pyval" where
  "py_get d k = (case map_of d k of None \<Rightarrow> PNone | Some v \<Rightarrow> v)"

text \<open>Truth value of an object, as \<^verbatim>\<open>x or y\<close> and \<^verbatim>\<open>if not x\<close> test it.\<close>

fun truthy :: "pyval \<Rightarrow> bool" where
  "truthy PNone = False"
| "truthy (PBool b) = b"
| "truthy (PInt n) = (n \<noteq> 0)"
| "truthy (PFloat r) = (r \<noteq> 0)"
| "truthy (PStr s) = (s \<noteq> [])"
| "truthy (PList xs) = (xs \<noteq> [])"
| "truthy (PDict kvs) = (kvs \<noteq> [])"

definition py_or :: "pyval \<Rightarrow> pyval \<Rightarrow> pyval" where
  "py_or x y = (if truthy x then x else y)"

subsection \<open>Strings\<close>

definition is_space :: "char \<Rightarrow> bool" where
  "is_space c = ((of_char c :: nat) \<in> {9, 10, 11, 12, 13, 28, 29, 30, 31, 32})"

definition py_strip :: "string \<Rightarrow> string" where
  "py_strip s = rev (dropWhile is_space (rev (dropWhile is_space s)))"

definition lower_char :: "char \<Rightarrow> char" where
  "lower_char c = (let n = (of_char c :: nat) in if 65 \<le> n \<and> n \<le> 90 then char_of (n + 32) else c)"

definition upper_char :: "char \<Rightarrow> char" where
  "upper_char c = (let n = (of_char c :: nat) in if 97 \<le> n \<and> n \<le> 122 then char_of (n - 32) else c)"

definition py_lower :: "string \<Rightarrow> string" where
  "py_lower s = map lower_char s"

definition py_upper :: "string \<Rightarrow> string" where
  "py_upper s = map upper_char s"

definition py_str :: "pylib \<Rightarrow> pyval \<Rightarrow> string" where
  "py_str L v = (case v of PStr s \<Rightarrow> s | _ \<Rightarrow> str_of L v)"

subsection \<open>Floats\<close>

text \<open>Round to the nearest integer, ties to the even one.\<close>

definition rne :: "real \<Rightarrow> int" where
  "rne x = (let f = \<lfloor>x\<rfloor>; d = x - of_int f in
     if d < 1 / 2 then f else if 1 / 2 < d then f + 1 else if even f then f else f + 1)"

definition pow2 :: "int \<Rightarrow> real" where
  "pow2 k = (if 0 \<le> k then 2 ^ nat k else 1 / 2 ^ nat (- k))"

text \<open>The binary exponent \<open>\<lfloor>log\<^sub>2 \<bar>x\<bar>\<rfloor>\<close> of a non-zero number.\<close>

definition binexp :: "real \<Rightarrow> int" where
  "binexp x = (if 1 \<le> \<bar>x\<bar> then bitlen \<lfloor>\<bar>x\<bar>\<rfloor> - 1 else - bitlen (\<lceil>1 / \<bar>x\<bar>\<rceil> - 1))"

text \<open>The binary64 number nearest to \<open>x\<close>: 53 significant bits, ties to even.\<close>

definition rd :: "real \<Rightarrow> real" where
  "rd x = (if x = 0 then 0 else let u = pow2 (binexp x - 52) in of_int (rne (x / u)) * u)"

definition fadd :: "real \<Rightarrow> real \<Rightarrow> real" where
  "fadd x y = rd (x + y)"

definition fsub :: "real \<Rightarrow> real \<Rightarrow> real" where
  "fsub x y = rd (x - y)"

definition fmul :: "real \<Rightarrow> real \<Rightarrow> real" where
  "fmul x y = rd (x * y)"

definition fdiv :: "real \<Rightarrow> real \<Rightarrow> real" where
  "fdiv x y = rd (x / y)"

text \<open>
  \<^verbatim>\<open>float(n)\<close> of an integer rounds it, and raises \<^verbatim>\<open>OverflowError\<close> when the rounded value is
  beyond the largest binary64 number.
\<close>

definition float_of_int :: "int \<Rightarrow> error + real" where
  "float_of_int n = (let r = rd (of_int n) in if 2 ^ 1024 \<le> \<bar>r\<bar> then Inl OverflowError else Inr r)"

fun py_float :: "pylib \<Rightarrow> pyval \<Rightarrow> error + real" where
  "py_float L PNone = Inl TypeError"
| "py_float L (PBool b) = Inr (if b then 1 else 0)"
| "py_float L (PInt n) = float_of_int n"
| "py_float L (PFloat r) = Inr r"
| "py_float L (PStr s) = (case float_of_str L s of None \<Rightarrow> Inl ValueError | Some r \<Rightarrow> Inr r)"
| "py_float L (PList xs) = Inl TypeError"
| "py_float L (PDict kvs) = Inl TypeError"

text \<open>\<^verbatim>\<open>int(x)\<close>; a float is truncated towards zero.\<close>

fun py_int :: "pylib \<Rightarrow> pyval \<Rightarrow> error + int" where
  "py_int L PNone = Inl TypeError"
| "py_int L (PBool b) = Inr (if b then 1 else 0)"
| "py_int L (PInt n) = Inr n"
| "py_int L (PFloat r) = Inr (if 0 \<le> r then \<lfloor>r\<rfloor> else \<lceil>r\<rceil>)"
| "py_int L (PStr s) = (case int_of_str L s of None \<Rightarrow> Inl ValueError | Some n \<Rightarrow> Inr n)"
| "py_int L (PList xs) = Inl TypeError"
| "py_int L (PDict kvs) = Inl TypeError"

section \<open>Supply snapshot\<close>

text \<open>
  \<^verbatim>\<open>get_pegged_usd_circulating\<close>: the conversion is tried on \<^verbatim>\<open>value or 0\<close>, and only
  \<^verbatim>\<open>TypeError\<close> and \<^verbatim>\<open>ValueError\<close> are caught.
\<close>

definition get_pegged_usd_circulating :: "pylib \<Rightarrow> pydict \<Rightarrow> error + real" where
  "get_pegged_usd_circulating L asset =
     (let circulating = py_get asset ''circulating'';
          v = (case circulating of PDict d \<Rightarrow> py_get d ''peggedUSD'' | _ \<Rightarrow> circulating)
      in case py_float L (py_or v (PInt 0)) of
           Inl TypeError \<Rightarrow> Inr 0
         | Inl ValueError \<Rightarrow> Inr 0
         | Inl e \<Rightarrow> Inl e
         | Inr r \<Rightarrow> Inr r)"

text \<open>
  The first loop of \<^verbatim>\<open>build_top20_symbols_and_usdc_supply\<close>, with its two accumulators
  \<^verbatim>\<open>usd_assets\<close> and \<^verbatim>\<open>usdc_candidates\<close>.
\<close>

fun collect_usd_assets ::
  "pylib \<Rightarrow> pydict list \<Rightarrow> (string \<times> real) list \<Rightarrow> real list
     \<Rightarrow> error + ((string \<times> real) list \<times> real list)" where
  "collect_usd_assets L [] usd_assets usdc_candidates = Inr (usd_assets, usdc_candidates)"
| "collect_usd_assets L (asset # rest) usd_assets usdc_candidates =
     (if py_get asset ''pegType'' \<noteq> PStr ''peggedUSD''
      then collect_usd_assets L rest usd_assets usdc_candidates
      else let symbol = py_strip (py_str L (py_or (py_get asset ''symbol'') (PStr []))) in
        if symbol = [] then collect_usd_assets L rest usd_assets usdc_candidates
        else (case get_pegged_usd_circulating L asset of
                Inl e \<Rightarrow> Inl e
              | Inr circulating \<Rightarrow>
                  collect_usd_assets L rest (usd_assets @ [(symbol, circulating)])
                    (if py_upper symbol = ''USDC'' then usdc_candidates @ [circulating]
                     else usdc_candidates)))"

text \<open>
  \<^verbatim>\<open>sorted(usd_assets, key=lambda item: item[1], reverse=True)\<close>: a stable sort, so that
  items with equal keys keep their order also with \<^verbatim>\<open>reverse=True\<close>.
\<close>

definition sorted_desc :: "(string \<times> real) list \<Rightarrow> (string \<times> real) list" where
  "sorted_desc usd_assets = sort_key (\<lambda>item. - snd item) usd_assets"

text \<open>The second loop, which leaves at the 20th symbol.\<close>

fun select_top :: "(string \<times> real) list \<Rightarrow> string list \<Rightarrow> string set \<Rightarrow> string list" where
  "select_top [] top_symbols seen_symbols = top_symbols"
| "select_top ((symbol, c) # rest) top_symbols seen_symbols =
     (let normalized_symbol = py_lower symbol in
      if normalized_symbol \<in> seen_symbols then select_top rest top_symbols seen_symbols
      else if length (top_symbols @ [normalized_symbol]) = 20
           then top_symbols @ [normalized_symbol]
           else select_top rest (top_symbols @ [normalized_symbol])
                  (insert normalized_symbol seen_symbols))"

text \<open>\<^verbatim>\<open>max\<close> of a list; of the empty list it raises \<^verbatim>\<open>ValueError\<close>.\<close>

fun py_max :: "real list \<Rightarrow> error + real" where
  "py_max [] = Inl ValueError"
| "py_max (x # xs) = Inr (fold (\<lambda>y m. if m < y then y else m) xs x)"

definition build_top20_symbols_and_usdc_supply ::
  "pylib \<Rightarrow> pydict list \<Rightarrow> error + (string list \<times> real)" where
  "build_top20_symbols_and_usdc_supply L pegged_assets =
     (case collect_usd_assets L pegged_assets [] [] of
        Inl e \<Rightarrow> Inl e
      | Inr (usd_assets, usdc_candidates) \<Rightarrow>
          if usd_assets = []
          then Inl (WeeklyReportError ''No peggedUSD assets found in DefiLlama response'')
          else if usdc_candidates = []
          then Inl (WeeklyReportError ''USDC supply not found in DefiLlama stablecoins list'')
          else (case py_max usdc_candidates of
                  Inl e \<Rightarrow> Inl e
                | Inr supply \<Rightarrow> Inr (select_top (sorted_desc usd_assets) [] {}, supply)))"

subsection \<open>The selection as the specification words it\<close>

definition is_usd_pegged :: "pydict \<Rightarrow> bool" where
  "is_usd_pegged asset = (py_get asset ''pegType'' = PStr ''peggedUSD'')"

text \<open>The symbol of an asset with surrounding whitespace trimmed.\<close>

definition trimmed_symbol :: "pylib \<Rightarrow> pydict \<Rightarrow> string" where
  "trimmed_symbol L asset = py_strip (py_str L (py_or (py_get asset ''symbol'') (PStr [])))"

definition normalized_symbol :: "pylib \<Rightarrow> pydict \<Rightarrow> string" where
  "normalized_symbol L asset = py_lower (trimmed_symbol L asset)"

text \<open>An asset has a circulating value when the extraction returns one.\<close>

definition has_circulating :: "pylib \<Rightarrow> pydict \<Rightarrow> bool" where
  "has_circulating L asset =
     (case get_pegged_usd_circulating L asset of Inl e \<Rightarrow> False | Inr r \<Rightarrow> True)"

text \<open>
  The extraction is tried on the USD-pegged assets with a non-empty symbol; it succeeds on
  a list when it returns a value for each of them.
\<close>

definition extraction_succeeds :: "pylib \<Rightarrow> pydict list \<Rightarrow> bool" where
  "extraction_succeeds L assets =
     list_all (\<lambda>a. is_usd_pegged a \<and> trimmed_symbol L a \<noteq> [] \<longrightarrow> has_circulating L a) assets"

definition circulating_of :: "pylib \<Rightarrow> pydict \<Rightarrow> real" where
  "circulating_of L asset =
     (case get_pegged_usd_circulating L asset of Inl e \<Rightarrow> 0 | Inr r \<Rightarrow> r)"

text \<open>Remove duplicates, keeping the first occurrence of each element.\<close>

fun dedup_first :: "'a list \<Rightarrow> 'a list" where
  "dedup_first [] = []"
| "dedup_first (x # xs) = x # dedup_first (filter (\<lambda>y. y \<noteq> x) xs)"

text \<open>
  The USD-pegged assets as pairs of normalized symbol and circulating amount, empty
  symbols dropped.
\<close>

definition spec_usd_pairs :: "pylib \<Rightarrow> pydict list \<Rightarrow> (string \<times> real) list" where
  "spec_usd_pairs L assets =
     filter (\<lambda>p. fst p \<noteq> [])
       (map (\<lambda>a. (normalized_symbol L a, circulating_of L a)) (filter is_usd_pegged assets))"

text \<open>
  Filter, normalize, drop empty symbols, sort by circulating amount descending (ties in the
  order of the input), deduplicate keeping the first occurrence, take the first 20.
\<close>

definition spec_top20 :: "pylib \<Rightarrow> pydict list \<Rightarrow> string list" where
  "spec_top20 L assets =
     take 20 (dedup_first (map fst (sort_key (\<lambda>p. - snd p) (spec_usd_pairs L assets))))"

text \<open>The largest circulating amount recorded for a normalized symbol.\<close>

definition best_circulating :: "pylib \<Rightarrow> pydict list \<Rightarrow> string \<Rightarrow> real" where
  "best_circulating L assets s =
     Max (set (map snd (filter (\<lambda>p. fst p = s) (spec_usd_pairs L assets))))"

text \<open>
  The circulating amounts of the records whose symbol is USDC after trimming, whatever the
  case of its letters.
\<close>

definition usdc_values :: "pylib \<Rightarrow> pydict list \<Rightarrow> real list" where
  "usdc_values L assets =
     map (circulating_of L)
       (filter (\<lambda>a. is_usd_pegged a \<and> py_upper (trimmed_symbol L a) = ''USDC'') assets)"

section \<open>History store\<close>

definition MAX_HISTORY_ITEMS :: nat where
  "MAX_HISTORY_ITEMS = 52"

text \<open>
  \<^verbatim>\<open>save_history\<close> writes \<^verbatim>\<open>history[-MAX_HISTORY_ITEMS:]\<close>; the result is the list of entries
  in the written document.
\<close>

definition save_history :: "'a list \<Rightarrow> 'a list" where
  "save_history history = drop (length history - MAX_HISTORY_ITEMS) history"

section \<open>Volume rows and the transfer-volume share\<close>

definition SYMBOL_COLUMN_CANDIDATES :: "string list" where
  "SYMBOL_COLUMN_CANDIDATES = [''symbol'', ''token_symbol'', ''asset'', ''stablecoin'', ''project'']"

definition VOLUME_COLUMN_CANDIDATES :: "string list" where
  "VOLUME_COLUMN_CANDIDATES =
     [''volume_7d_usd'', ''volume_usd_7d'', ''transfer_volume_usd'', ''volume_usd'',
      ''amount_usd'', ''volume'']"

text \<open>
  \<^verbatim>\<open>get_row_value\<close>. The dict comprehension inserts the lowered keys in the order of the row,
  a later key overwriting an equal earlier one. The first candidate that is a key decides,
  also when its value is \<^verbatim>\<open>None\<close>.
\<close>

definition lowered_row :: "pydict \<Rightarrow> pydict" where
  "lowered_row row = fold (\<lambda>item d. AList.update (py_lower (fst item)) (snd item) d) row []"

fun first_candidate :: "pydict \<Rightarrow> string list \<Rightarrow> pyval" where
  "first_candidate d [] = PNone"
| "first_candidate d (candidate # rest) =
     (case map_of d candidate of Some v \<Rightarrow> v | None \<Rightarrow> first_candidate d rest)"

definition get_row_value :: "pydict \<Rightarrow> string list \<Rightarrow> pyval" where
  "get_row_value row candidates = first_candidate (lowered_row row) candidates"

text \<open>
  The loop of \<^verbatim>\<open>extract_dune_symbol_totals\<close> over the rows, with the dict \<^verbatim>\<open>totals\<close> as
  accumulator. \<^verbatim>\<open>float(raw_volume)\<close> is guarded against \<^verbatim>\<open>TypeError\<close> and \<^verbatim>\<open>ValueError\<close>.
\<close>

fun accumulate_rows ::
  "pylib \<Rightarrow> pydict list \<Rightarrow> (string \<times> real) list \<Rightarrow> error + (string \<times> real) list" where
  "accumulate_rows L [] totals = Inr totals"
| "accumulate_rows L (row # rest) totals =
     (let raw_symbol = get_row_value row SYMBOL_COLUMN_CANDIDATES in
      if raw_symbol = PNone then accumulate_rows L rest totals
      else let symbol = py_lower (py_strip (py_str L raw_symbol)) in
        if symbol = [] then accumulate_rows L rest totals
        else let raw_volume = get_row_value row VOLUME_COLUMN_CANDIDATES in
          if raw_volume = PNone then accumulate_rows L rest totals
          else (case py_float L raw_volume of
                  Inl TypeError \<Rightarrow> accumulate_rows L rest totals
                | Inl ValueError \<Rightarrow> accumulate_rows L rest totals
                | Inl e \<Rightarrow> Inl e
                | Inr volume \<Rightarrow>
                    accumulate_rows L rest
                      (AList.update symbol
                         (fadd (case map_of totals symbol of None \<Rightarrow> 0 | Some t \<Rightarrow> t) volume)
                         totals)))"

definition extract_dune_symbol_totals ::
  "pylib \<Rightarrow> pydict list \<Rightarrow> error + (string \<times> real) list" where
  "extract_dune_symbol_totals L rows =
     (case accumulate_rows L rows [] of
        Inl e \<Rightarrow> Inl e
      | Inr totals \<Rightarrow>
          if totals = []
          then Inl (WeeklyReportError
            (''Dune query rows did not contain usable symbol and volume columns. '' @
             ''Expected columns like symbol + volume_7d_usd.''))
          else Inr totals)"

text \<open>
  \<^verbatim>\<open>sum\<close> of floats, added from the left starting at 0, as CPython does up to version 3.11
  (later versions compensate the rounding errors of the additions).
\<close>

definition py_sum :: "real list \<Rightarrow> real" where
  "py_sum xs = foldl fadd 0 xs"

text \<open>The loop of \<^verbatim>\<open>compute_dune_share\<close> over the symbols.\<close>

fun split_symbols ::
  "(string \<times> real) list \<Rightarrow> string list \<Rightarrow> string list \<Rightarrow> (string \<times> real) list
     \<Rightarrow> string list \<times> (string \<times> real) list" where
  "split_symbols dune_symbol_totals [] missing_symbols denominator_totals =
     (missing_symbols, denominator_totals)"
| "split_symbols dune_symbol_totals (symbol # rest) missing_symbols denominator_totals =
     (case map_of dune_symbol_totals symbol of
        None \<Rightarrow>
          split_symbols dune_symbol_totals rest (missing_symbols @ [symbol]) denominator_totals
      | Some v \<Rightarrow>
          split_symbols dune_symbol_totals rest missing_symbols
            (AList.update symbol v denominator_totals))"

definition compute_dune_share ::
  "(string \<times> real) list \<Rightarrow> string list
     \<Rightarrow> error + (real option \<times> string list \<times> (string \<times> real) list)" where
  "compute_dune_share dune_symbol_totals symbols =
     (case split_symbols dune_symbol_totals symbols [] [] of
        (missing_symbols, denominator_totals) \<Rightarrow>
          (case map_of denominator_totals ''usdc'' of
             None \<Rightarrow> Inr (None, missing_symbols, denominator_totals)
           | Some usdc_total \<Rightarrow>
               let denominator = py_sum (map snd denominator_totals) in
               if denominator \<le> 0
               then Inl (WeeklyReportError ''Dune denominator volume is zero'')
               else Inr (Some (fdiv usdc_total denominator), missing_symbols,
                         denominator_totals)))"

subsection \<open>The aggregation and the share as the specification words them\<close>

text \<open>The totals of the symbols of the list that have one, in the order of the list.\<close>

definition present_totals :: "(string \<times> real) list \<Rightarrow> string list \<Rightarrow> (string \<times> real) list" where
  "present_totals totals symbols =
     map (\<lambda>s. (s, the (map_of totals s))) (filter (\<lambda>s. map_of totals s \<noteq> None) symbols)"

definition missing_of :: "(string \<times> real) list \<Rightarrow> string list \<Rightarrow> string list" where
  "missing_of totals symbols = filter (\<lambda>s. map_of totals s = None) symbols"

text \<open>
  What a row contributes: nothing when it lacks a usable symbol or volume, the pair of its
  normalized symbol and volume otherwise, or the error its volume raises.
\<close>

definition row_entry :: "pylib \<Rightarrow> pydict \<Rightarrow> (error + string \<times> real) option" where
  "row_entry L row =
     (let raw_symbol = get_row_value row SYMBOL_COLUMN_CANDIDATES;
          symbol = py_lower (py_strip (py_str L raw_symbol));
          raw_volume = get_row_value row VOLUME_COLUMN_CANDIDATES
      in if raw_symbol = PNone \<or> symbol = [] \<or> raw_volume = PNone then None
         else (case py_float L raw_volume of
                 Inl TypeError \<Rightarrow> None
               | Inl ValueError \<Rightarrow> None
               | Inl e \<Rightarrow> Some (Inl e)
               | Inr volume \<Rightarrow> Some (Inr (symbol, volume))))"

definition usable_entry :: "pylib \<Rightarrow> pydict \<Rightarrow> (string \<times> real) option" where
  "usable_entry L row = (case row_entry L row of Some (Inr p) \<Rightarrow> Some p | _ \<Rightarrow> None)"

definition failing_row :: "pylib \<Rightarrow> pydict \<Rightarrow> bool" where
  "failing_row L row = (case row_entry L row of Some (Inl e) \<Rightarrow> True | _ \<Rightarrow> False)"

text \<open>The usable pairs of the rows, in the order of the rows.\<close>

definition volume_entries :: "pylib \<Rightarrow> pydict list \<Rightarrow> (string \<times> real) list" where
  "volume_entries L rows = List.map_filter (usable_entry L) rows"

text \<open>One accumulation step, \<^verbatim>\<open>totals[symbol] = totals.get(symbol, 0.0) + volume\<close>.\<close>

definition add_volume :: "string \<times> real \<Rightarrow> (string \<times> real) list \<Rightarrow> (string \<times> real) list" where
  "add_volume p totals =
     AList.update (fst p)
       (fadd (case map_of totals (fst p) of None \<Rightarrow> 0 | Some t \<Rightarrow> t) (snd p)) totals"

text \<open>
  The volumes are integers whose absolute values sum to less than \<open>2\<^sup>5\<^sup>3\<close>, so that no float
  addition of them rounds.
\<close>

definition exact_volumes :: "pylib \<Rightarrow> pydict list \<Rightarrow> bool" where
  "exact_volumes L rows =
     (list_all (\<lambda>p. of_int \<lfloor>snd p\<rfloor> = snd p) (volume_entries L rows)
      \<and> sum_list (map (\<lambda>p. \<bar>snd p\<bar>) (volume_entries L rows)) < 2 ^ 53)"

section \<open>Week-over-week deltas\<close>

text \<open>
  \<^verbatim>\<open>METRIC_SPECS\<close>, in its order. Only the kind of a metric is used by the functions modelled
  here; the labels are omitted.
\<close>

definition METRIC_SPECS :: "(string \<times> string) list" where
  "METRIC_SPECS =
     [(''total_supply_usd'', ''currency''),
      (''usdc_supply_usd'', ''currency''),
      (''usdc_supply_share'', ''share''),
      (''usdc_transfer_volume_share_7d'', ''share'')]"

text \<open>The decimal digits of a natural number.\<close>

fun digits_of :: "nat \<Rightarrow> string" where
  "digits_of n =
     (if n < 10 then [char_of (48 + n)] else digits_of (n div 10) @ [char_of (48 + n mod 10)])"

declare digits_of.simps [simp del]

text \<open>
  The format \<^verbatim>\<open>+.2f\<close>: a sign in every case, and the value rounded to two decimals, ties to
  even. The format \<^verbatim>\<open>+.2%\<close> multiplies the float by 100 first and appends a percent sign.
\<close>

definition format_plus_2f :: "real \<Rightarrow> string" where
  "format_plus_2f x =
     (let n = nat (rne (\<bar>x\<bar> * 100)) in
      (if x < 0 then ''-'' else ''+'') @ digits_of (n div 100) @ ''.'' @
      digits_of (n mod 100 div 10) @ digits_of (n mod 10))"

definition format_plus_2pct :: "real \<Rightarrow> string" where
  "format_plus_2pct x = format_plus_2f (fmul x 100) @ ''%''"

definition format_wow :: "string \<Rightarrow> real option \<Rightarrow> real option \<Rightarrow> error + string" where
  "format_wow metric_name current previous =
     (case (current, previous) of
        (Some c, Some p) \<Rightarrow>
          (case map_of METRIC_SPECS metric_name of
             None \<Rightarrow> Inl (KeyError metric_name)
           | Some metric_kind \<Rightarrow>
               if metric_kind = ''share''
               then Inr (format_plus_2f (fmul (fsub c p) 100) @ ''pp'')
               else if p = 0 then Inr ''N/A''
               else Inr (format_plus_2pct (fdiv (fsub c p) p)))
      | _ \<Rightarrow> Inr ''N/A'')"

text \<open>
  A metrics snapshot maps the metric names to optional floats; \<^verbatim>\<open>.get\<close> gives \<^verbatim>\<open>None\<close> for a
  missing name and for a stored \<^verbatim>\<open>None\<close>.
\<close>

type_synonym metrics = "(string \<times> real option) list"

definition metric_get :: "metrics \<Rightarrow> string \<Rightarrow> real option" where
  "metric_get m name = (case map_of m name of Some (Some v) \<Rightarrow> Some v | _ \<Rightarrow> None)"

text \<open>
  The previous value of a metric in \<^verbatim>\<open>build_wow_map\<close>: \<^verbatim>\<open>float(raw_previous)\<close> guarded against
  \<^verbatim>\<open>TypeError\<close> and \<^verbatim>\<open>ValueError\<close>.
\<close>

definition previous_value :: "pylib \<Rightarrow> pydict option \<Rightarrow> string \<Rightarrow> error + real option" where
  "previous_value L previous_metrics metric_name =
     (case previous_metrics of
        None \<Rightarrow> Inr None
      | Some d \<Rightarrow>
          let raw_previous = py_get d metric_name in
          if raw_previous = PNone then Inr None
          else (case py_float L raw_previous of
                  Inl TypeError \<Rightarrow> Inr None
                | Inl ValueError \<Rightarrow> Inr None
                | Inl e \<Rightarrow> Inl e
                | Inr v \<Rightarrow> Inr (Some v)))"

fun build_wow_loop ::
  "pylib \<Rightarrow> metrics \<Rightarrow> pydict option \<Rightarrow> (string \<times> string) list \<Rightarrow> (string \<times> string) list
     \<Rightarrow> error + (string \<times> string) list" where
  "build_wow_loop L current_metrics previous_metrics [] wow_map = Inr wow_map"
| "build_wow_loop L current_metrics previous_metrics ((metric_name, spec) # rest) wow_map =
     (case previous_value L previous_metrics metric_name of
        Inl e \<Rightarrow> Inl e
      | Inr previous \<Rightarrow>
          (case format_wow metric_name (metric_get current_metrics metric_name) previous of
             Inl e \<Rightarrow> Inl e
           | Inr text \<Rightarrow>
               build_wow_loop L current_metrics previous_metrics rest
                 (AList.update metric_name text wow_map)))"

definition build_wow_map ::
  "pylib \<Rightarrow> metrics \<Rightarrow> pydict option \<Rightarrow> error + (string \<times> string) list" where
  "build_wow_map L current_metrics previous_metrics =
     build_wow_loop L current_metrics previous_metrics METRIC_SPECS []"

section \<open>Loading the history\<close>

text \<open>
  The history file is absent or has a text. \<^verbatim>\<open>load_history\<close> strips the text, decodes it and
  keeps the items of the decoded list that are dicts.
\<close>

datatype history_file = NoFile | FileText string

fun dict_items :: "pyval list \<Rightarrow> pydict list" where
  "dict_items [] = []"
| "dict_items (PDict d # rest) = d # dict_items rest"
| "dict_items (v # rest) = dict_items rest"

definition load_history :: "pylib \<Rightarrow> history_file \<Rightarrow> error + pydict list" where
  "load_history L file =
     (case file of
        NoFile \<Rightarrow> Inr []
      | FileText text \<Rightarrow>
          let raw_text = py_strip text in
          if raw_text = [] then Inr []
          else (case json_loads L raw_text of
                  None \<Rightarrow> Inl (WeeklyReportError ''Invalid JSON in data/weekly_history.json'')
                | Some (PList items) \<Rightarrow> Inr (dict_items items)
                | Some v \<Rightarrow>
                    Inl (WeeklyReportError
                      ''History file must contain a JSON array: data/weekly_history.json'')))"

text \<open>\<^verbatim>\<open>get_previous_metrics\<close>: the metrics of the last entry, when they are a dict.\<close>

definition get_previous_metrics :: "pydict list \<Rightarrow> pydict option" where
  "get_previous_metrics history =
     (if history = [] then None
      else (case py_get (last history) ''metrics'' of PDict d \<Rightarrow> Some d | _ \<Rightarrow> None))"

text \<open>A well-formed list of records: every item of the list is a dict.\<close>

fun is_dict :: "pyval \<Rightarrow> bool" where
  "is_dict (PDict d) = True"
| "is_dict v = False"


section \<open>Paginated result retrieval\<close>

text \<open>
  The provider answers the \<open>n\<close>-th request, made with an offset, with an error of
  \<^verbatim>\<open>request_json\<close> or with a decoded payload. \<^verbatim>\<open>read_page\<close> is the body of the loop of
  \<^verbatim>\<open>fetch_dune_result_rows\<close> up to the test of the cursor: it checks the shape of the payload,
  appends the rows that are dicts and reads \<^verbatim>\<open>next_offset\<close>.
\<close>

type_synonym provider = "nat \<Rightarrow> int \<Rightarrow> error + pyval"

definition read_page :: "error + pyval \<Rightarrow> pydict list \<Rightarrow> error + (pydict list \<times> pyval)" where
  "read_page response rows =
     (case response of
        Inl e \<Rightarrow> Inl e
      | Inr (PDict result_payload) \<Rightarrow>
          (case py_get result_payload ''result'' of
             PDict result \<Rightarrow>
               (case py_get result ''rows'' of
                  PList page_rows \<Rightarrow>
                    Inr (rows @ dict_items page_rows, py_get result_payload ''next_offset'')
                | _ \<Rightarrow> Inl (WeeklyReportError ''Dune result payload has invalid rows structure''))
           | _ \<Rightarrow> Inl (WeeklyReportError ''Dune result payload is missing result rows''))
      | Inr _ \<Rightarrow> Inl AttributeError)"

text \<open>
  The loop \<^verbatim>\<open>while True\<close>. It may run forever, which is the value \<open>None\<close>.
\<close>

partial_function (option) fetch_loop ::
  "pylib \<Rightarrow> provider \<Rightarrow> nat \<Rightarrow> int \<Rightarrow> pydict list \<Rightarrow> (error + pydict list) option" where
  "fetch_loop L serve n offset rows =
     (case read_page (serve n offset) rows of
        Inl e \<Rightarrow> Some (Inl e)
      | Inr (rows', next_offset) \<Rightarrow>
          if next_offset = PNone then Some (Inr rows')
          else (case py_int L next_offset of
                  Inl e \<Rightarrow> Some (Inl e)
                | Inr offset' \<Rightarrow> fetch_loop L serve (Suc n) offset' rows'))"

definition fetch_dune_result_rows :: "pylib \<Rightarrow> provider \<Rightarrow> (error + pydict list) option" where
  "fetch_dune_result_rows L serve =
     (case fetch_loop L serve 0 0 [] of
        None \<Rightarrow> None
      | Some (Inl e) \<Rightarrow> Some (Inl e)
      | Some (Inr rows) \<Rightarrow>
          Some (if rows = [] then Inl (WeeklyReportError ''Dune query returned no rows'')
                else Inr rows))"

subsection \<open>Sequences of pages\<close>

text \<open>
  A page is a payload with a list of rows under \<^verbatim>\<open>result\<close>; its cursor is its
  \<^verbatim>\<open>next_offset\<close>, \<^verbatim>\<open>None\<close> when the key is missing.
\<close>

definition page_rows :: "pyval \<Rightarrow> pyval list option" where
  "page_rows payload =
     (case payload of
        PDict result_payload \<Rightarrow>
          (case py_get result_payload ''result'' of
             PDict result \<Rightarrow>
               (case py_get result ''rows'' of PList rows \<Rightarrow> Some rows | _ \<Rightarrow> None)
           | _ \<Rightarrow> None)
      | _ \<Rightarrow> None)"

definition cursor_of :: "pyval \<Rightarrow> pyval" where
  "cursor_of payload = (case payload of PDict result_payload \<Rightarrow> py_get result_payload ''next_offset''
                        | _ \<Rightarrow> PNone)"

text \<open>
  The provider serves the pages of a list one after the other from request \<open>n\<close> and the given
  offset on: every page but the last has a cursor, which is the offset of the next request,
  and the last page has none.
\<close>

fun serves :: "pylib \<Rightarrow> provider \<Rightarrow> nat \<Rightarrow> int \<Rightarrow> pyval list \<Rightarrow> bool" where
  "serves L serve n offset [] = False"
| "serves L serve n offset [p] =
     (serve n offset = Inr p \<and> page_rows p \<noteq> None \<and> cursor_of p = PNone)"
| "serves L serve n offset (p # q # ps) =
     (serve n offset = Inr p \<and> page_rows p \<noteq> None \<and> cursor_of p \<noteq> PNone
      \<and> (case py_int L (cursor_of p) of
            Inl e \<Rightarrow> False
          | Inr offset' \<Rightarrow> serves L serve (Suc n) offset' (q # ps)))"

text \<open>A response that is a page with a cursor that converts to an offset.\<close>

definition has_next :: "pylib \<Rightarrow> error + pyval \<Rightarrow> bool" where
  "has_next L response =
     (case response of
        Inl e \<Rightarrow> False
      | Inr p \<Rightarrow> page_rows p \<noteq> None \<and> cursor_of p \<noteq> PNone
                 \<and> (case py_int L (cursor_of p) of Inl e \<Rightarrow> False | Inr offset' \<Rightarrow> True))"

text \<open>The rows kept from a list of pages.\<close>

definition kept_rows :: "pyval list \<Rightarrow> pydict list" where
  "kept_rows pages = concat (map (\<lambda>p. dict_items (the (page_rows p))) pages)"

section \<open>The run\<close>

text \<open>
  What \<^verbatim>\<open>run_report\<close> reads from outside is a record: the outcome of the scheduling check,
  the environment variables (the empty string when unset), the texts of the run time and of
  the report window, the results of the two supply requests after their shape checks, the
  outcomes of submitting the query and of waiting for it, the provider of result pages, the
  history file, and the answer of the webhook to a message (\<open>None\<close> when it accepts).
\<close>

datatype report =
    Success metrics "(string \<times> string) list" "string list" "string \<times> string"
  | Failure string metrics "(string \<times> string) option" "string list"

datatype message = Card report | Text report

record world =
  in_window :: bool
  force_run :: bool
  env_dune_api_key :: string
  env_dune_query_id :: string
  env_feishu_webhook_url :: string
  run_time :: string
  report_window :: "string \<times> string"
  stablecoins :: "error + pydict list"
  chart :: "error + pyval list"
  dune_execute :: "error + string"
  dune_wait :: "error + unit"
  dune_serve :: provider
  history_file :: history_file
  webhook :: "message \<Rightarrow> error option"

text \<open>What a run leaves behind: its exit code, the history it wrote, the messages delivered.\<close>

record outcome =
  exit_code :: int
  saved_history :: "pydict list option"
  delivered :: "message list"

definition should_run_now :: "world \<Rightarrow> bool" where
  "should_run_now w = (if force_run w then True else in_window w)"

definition get_required_env :: "string \<Rightarrow> string \<Rightarrow> error + string" where
  "get_required_env name raw =
     (let v = py_strip raw in
      if v = [] then Inl (WeeklyReportError (''Missing required environment variable: '' @ name))
      else Inr v)"

definition get_optional_env :: "string \<Rightarrow> string option" where
  "get_optional_env raw = (let v = py_strip raw in if v = [] then None else Some v)"

definition get_total_supply_usd :: "pylib \<Rightarrow> pyval list \<Rightarrow> error + real" where
  "get_total_supply_usd L chart_points =
     (if chart_points = [] then Inl IndexError
      else (case last chart_points of
              PDict latest_point \<Rightarrow>
                (case py_get latest_point ''totalCirculating'' of
                   PDict total_circulating \<Rightarrow>
                     let v = py_get total_circulating ''peggedUSD'' in
                     if v = PNone
                     then Inl (WeeklyReportError
                            ''DefiLlama chart is missing peggedUSD total supply'')
                     else (case py_float L v of
                             Inl e \<Rightarrow> Inl e
                           | Inr total_supply_usd \<Rightarrow>
                               if total_supply_usd \<le> 0
                               then Inl (WeeklyReportError
                                      ''DefiLlama total supply is not positive'')
                               else Inr total_supply_usd)
                 | _ \<Rightarrow> Inl (WeeklyReportError
                          ''DefiLlama chart is missing totalCirculating data''))
            | _ \<Rightarrow> Inl AttributeError))"

text \<open>
  \<^verbatim>\<open>send_feishu_message\<close>: the card, and on any failure the text once; a failure of the
  text is raised. The result is the messages delivered and the error raised, if any.
\<close>

definition send_feishu_message :: "world \<Rightarrow> report \<Rightarrow> message list \<times> error option" where
  "send_feishu_message w r =
     (case webhook w (Card r) of
        None \<Rightarrow> ([Card r], None)
      | Some primary_error \<Rightarrow>
          (case webhook w (Text r) of
             None \<Rightarrow> ([Text r], None)
           | Some e \<Rightarrow> ([], Some e)))"

text \<open>
  \<^verbatim>\<open>notify_failure\<close> inside the \<^verbatim>\<open>try\<close> of the failure path: nothing is sent without a
  webhook address, and an error of the delivery is logged and dropped.
\<close>

definition notify_failure ::
  "world \<Rightarrow> string option \<Rightarrow> string \<Rightarrow> metrics \<Rightarrow> (string \<times> string) option \<Rightarrow> string list
     \<Rightarrow> message list" where
  "notify_failure w webhook_url error_message partial_metrics window missing_symbols =
     (case webhook_url of
        None \<Rightarrow> []
      | Some url \<Rightarrow>
          fst (send_feishu_message w
                 (Failure error_message partial_metrics window missing_symbols)))"

text \<open>\<^verbatim>\<open>str(exc)\<close>: the message of a \<^verbatim>\<open>WeeklyReportError\<close>; for the other errors a name.\<close>

fun error_text :: "error \<Rightarrow> string" where
  "error_text (WeeklyReportError m) = m"
| "error_text (RequestError m) = m"
| "error_text (KeyError k) = k"
| "error_text TypeError = ''TypeError''"
| "error_text ValueError = ''ValueError''"
| "error_text OverflowError = ''OverflowError''"
| "error_text AttributeError = ''AttributeError''"
| "error_text IndexError = ''IndexError''"

definition initial_metrics :: metrics where
  "initial_metrics =
     [(''total_supply_usd'', None), (''usdc_supply_usd'', None), (''usdc_supply_share'', None),
      (''usdc_transfer_volume_share_7d'', None)]"

definition supply_metrics :: "real \<Rightarrow> real \<Rightarrow> metrics" where
  "supply_metrics total_supply_usd usdc_supply_usd =
     AList.update ''usdc_supply_share'' (Some (fdiv usdc_supply_usd total_supply_usd))
       (AList.update ''usdc_supply_usd'' (Some usdc_supply_usd)
          (AList.update ''total_supply_usd'' (Some total_supply_usd) initial_metrics))"

text \<open>
  The \<^verbatim>\<open>try\<close> block up to the supply metrics: the three required variables, the two supply
  requests, the selection and the total supply.
\<close>

definition supply_stage :: "pylib \<Rightarrow> world \<Rightarrow> error + (string list \<times> real \<times> real)" where
  "supply_stage L w =
     (case get_required_env ''DUNE_API_KEY'' (env_dune_api_key w) of
        Inl e \<Rightarrow> Inl e
      | Inr dune_api_key \<Rightarrow>
     (case get_required_env ''DUNE_QUERY_ID'' (env_dune_query_id w) of
        Inl e \<Rightarrow> Inl e
      | Inr query_text \<Rightarrow>
     (case int_of_str L query_text of
        None \<Rightarrow> Inl ValueError
      | Some dune_query_id \<Rightarrow>
     (case get_required_env ''FEISHU_WEBHOOK_URL'' (env_feishu_webhook_url w) of
        Inl e \<Rightarrow> Inl e
      | Inr webhook_url \<Rightarrow>
     (case stablecoins w of
        Inl e \<Rightarrow> Inl e
      | Inr pegged_assets \<Rightarrow>
     (case chart w of
        Inl e \<Rightarrow> Inl e
      | Inr chart_points \<Rightarrow>
     (case build_top20_symbols_and_usdc_supply L pegged_assets of
        Inl e \<Rightarrow> Inl e
      | Inr (top_symbols, usdc_supply_usd) \<Rightarrow>
     (case get_total_supply_usd L chart_points of
        Inl e \<Rightarrow> Inl e
      | Inr total_supply_usd \<Rightarrow> Inr (top_symbols, usdc_supply_usd, total_supply_usd)))))))))"

text \<open>
  From the submission of the query to \<^verbatim>\<open>compute_dune_share\<close>; \<open>None\<close> when the retrieval of
  the rows does not return.
\<close>

definition volume_stage ::
  "pylib \<Rightarrow> world \<Rightarrow> string list \<Rightarrow> (error + (real option \<times> string list)) option" where
  "volume_stage L w top_symbols =
     (case dune_execute w of
        Inl e \<Rightarrow> Some (Inl e)
      | Inr execution_id \<Rightarrow>
     (case dune_wait w of
        Inl e \<Rightarrow> Some (Inl e)
      | Inr u \<Rightarrow>
     (case fetch_dune_result_rows L (dune_serve w) of
        None \<Rightarrow> None
      | Some (Inl e) \<Rightarrow> Some (Inl e)
      | Some (Inr dune_rows) \<Rightarrow>
     (case extract_dune_symbol_totals L dune_rows of
        Inl e \<Rightarrow> Some (Inl e)
      | Inr dune_symbol_totals \<Rightarrow>
     (case compute_dune_share dune_symbol_totals top_symbols of
        Inl e \<Rightarrow> Some (Inl e)
      | Inr (volume_share, missing_symbols, denominator_totals) \<Rightarrow>
          Some (Inr (volume_share, missing_symbols)))))))"

text \<open>\<^verbatim>\<open>build_history_entry\<close>, a dict as it is written to the history.\<close>

definition metric_value :: "real option \<Rightarrow> pyval" where
  "metric_value v = (case v of None \<Rightarrow> PNone | Some x \<Rightarrow> PFloat x)"

definition build_history_entry ::
  "string \<Rightarrow> string \<times> string \<Rightarrow> metrics \<Rightarrow> string list \<Rightarrow> pydict" where
  "build_history_entry run_time_text window metrics missing_symbols =
     [(''run_time_beijing'', PStr run_time_text),
      (''start_date'', PStr (fst window)),
      (''end_date'', PStr (snd window)),
      (''metrics'', PDict (map (\<lambda>item. (fst item, metric_value (snd item))) metrics)),
      (''missing_symbols'', PList (map PStr missing_symbols))]"

text \<open>
  The rest of the \<^verbatim>\<open>try\<close> block once all four metrics are there: the deltas, the history
  entry and its saving, the success message. The result is the history written, the
  messages delivered and the error raised, if any.
\<close>

definition report_stage ::
  "pylib \<Rightarrow> world \<Rightarrow> metrics \<Rightarrow> string list
     \<Rightarrow> pydict list option \<times> message list \<times> error option" where
  "report_stage L w metrics missing_symbols =
     (case load_history L (history_file w) of
        Inl e \<Rightarrow> (None, [], Some e)
      | Inr history \<Rightarrow>
     (case build_wow_map L metrics (get_previous_metrics history) of
        Inl e \<Rightarrow> (None, [], Some e)
      | Inr wow_map \<Rightarrow>
          let entry = build_history_entry (run_time w) (report_window w) metrics missing_symbols;
              saved = save_history (history @ [entry]);
              sent = send_feishu_message w
                       (Success metrics wow_map missing_symbols (report_window w))
          in (Some saved, fst sent, snd sent)))"

text \<open>
  The failure path: the notification with the partial metrics, and exit code 1. The webhook
  address is the optional one read before the \<^verbatim>\<open>try\<close> block.
\<close>

definition failure_path ::
  "world \<Rightarrow> error \<Rightarrow> metrics \<Rightarrow> (string \<times> string) option \<Rightarrow> string list
     \<Rightarrow> pydict list option \<Rightarrow> outcome" where
  "failure_path w e partial_metrics window missing_symbols saved =
     \<lparr>exit_code = 1, saved_history = saved,
      delivered = notify_failure w (get_optional_env (env_feishu_webhook_url w))
                    (error_text e) partial_metrics window missing_symbols\<rparr>"

definition run_report :: "pylib \<Rightarrow> world \<Rightarrow> outcome option" where
  "run_report L w =
     (if \<not> should_run_now w then Some \<lparr>exit_code = 0, saved_history = None, delivered = []\<rparr>
      else (case supply_stage L w of
              Inl e \<Rightarrow> Some (failure_path w e initial_metrics None [] None)
            | Inr (top_symbols, usdc_supply_usd, total_supply_usd) \<Rightarrow>
                let partial_metrics = supply_metrics total_supply_usd usdc_supply_usd;
                    window = Some (report_window w)
                in (case volume_stage L w top_symbols of
                      None \<Rightarrow> None
                    | Some (Inl e) \<Rightarrow> Some (failure_path w e partial_metrics window [] None)
                    | Some (Inr (volume_share, missing_symbols)) \<Rightarrow>
                        let partial_metrics =
                              AList.update ''usdc_transfer_volume_share_7d'' volume_share
                                partial_metrics
                        in if volume_share = None
                           then Some (failure_path w
                                  (WeeklyReportError
                                    (''Dune query result did not include usable USDC '' @
                                     ''transfer volume data''))
                                  partial_metrics window missing_symbols None)
                           else (case report_stage L w partial_metrics missing_symbols of
                                   (saved, sent, Some e) \<Rightarrow>
                                     (let f = failure_path w e partial_metrics window
                                                missing_symbols saved
                                      in Some (f\<lparr>delivered := sent @ delivered f\<rparr>))
                                 | (saved, sent, None) \<Rightarrow>
                                     Some \<lparr>exit_code = 0, saved_history = saved,
                                           delivered = sent\<rparr>))))"

section \<open>Example inputs\<close>

text \<open>
  A USD-pegged asset record in the shape of the provider's response, a library in which no
  string is parseable, and a small asset list.
\<close>

definition usd_asset :: "string \<Rightarrow> pyval \<Rightarrow> pydict" where
  "usd_asset symbol circulating =
     [(''pegType'', PStr ''peggedUSD''), (''symbol'', PStr symbol),
      (''circulating'', PDict [(''peggedUSD'', circulating)])]"

definition no_lib :: pylib where
  "no_lib = \<lparr>json_loads = (\<lambda>s. None), float_of_str = (\<lambda>s. None), int_of_str = (\<lambda>s. None),
     str_of = (\<lambda>v. [])\<rparr>"

definition example_assets :: "pydict list" where
  "example_assets =
     [usd_asset ''DAI'' (PFloat 5),
      usd_asset ''usdc'' (PFloat 30),
      [(''pegType'', PStr ''peggedEUR''), (''symbol'', PStr ''EURS''), (''circulating'', PFloat 90)],
      usd_asset '' USDT '' (PFloat 50),
      usd_asset ''UsDc'' (PFloat 20)]"

text \<open>
  Result rows, a list of them with small integer volumes and a permutation of it, and a list
  with volumes of very different magnitude and a permutation of it.
\<close>

definition volume_row :: "string \<Rightarrow> real \<Rightarrow> pydict" where
  "volume_row symbol v = [(''symbol'', PStr symbol), (''volume_7d_usd'', PFloat v)]"

definition small_rows :: "pydict list" where
  "small_rows = [volume_row ''USDC'' 1, volume_row ''usdt'' 2, volume_row '' usdc '' 3]"

definition small_rows_permuted :: "pydict list" where
  "small_rows_permuted = [volume_row '' usdc '' 3, volume_row ''USDC'' 1, volume_row ''usdt'' 2]"

definition large_rows :: "pydict list" where
  "large_rows =
     [volume_row ''usdc'' 10000000000000000, volume_row ''usdc'' 1,
      volume_row ''usdc'' (- 10000000000000000)]"

definition large_rows_permuted :: "pydict list" where
  "large_rows_permuted =
     [volume_row ''usdc'' 10000000000000000, volume_row ''usdc'' (- 10000000000000000),
      volume_row ''usdc'' 1]"


text \<open>
  A page, and two providers: one serves a page with a malformed row, an empty page and a
  last page with one row; the other serves an empty page with a cursor for ever.
\<close>

definition page :: "pyval list \<Rightarrow> pyval \<Rightarrow> pyval" where
  "page rows next_offset =
     PDict [(''result'', PDict [(''rows'', PList rows)]), (''next_offset'', next_offset)]"

definition three_pages :: provider where
  "three_pages n offset =
     (if offset = 0 then Inr (page [PDict (volume_row ''usdc'' 1), PInt 7] (PInt 2))
      else if offset = 2 then Inr (page [] (PInt 3))
      else Inr (page [PDict (volume_row ''usdt'' 2)] PNone))"

definition endless_pages :: provider where
  "endless_pages n offset = Inr (page [] (PInt (offset + 1000)))"

text \<open>
  A run in the scheduling window in which every request succeeds and the only result row is
  one for usdt, so that the volume totals have no entry for usdc. The library reads the
  query identifier \<^verbatim>\<open>42\<close>.
\<close>

definition run_lib :: pylib where
  "run_lib =
     \<lparr>json_loads = (\<lambda>s. None), float_of_str = (\<lambda>s. None),
      int_of_str = (\<lambda>s. if s = ''42'' then Some 42 else None), str_of = (\<lambda>v. [])\<rparr>"

definition usdt_only_world :: world where
  "usdt_only_world =
     \<lparr>in_window = True, force_run = False,
      env_dune_api_key = ''key'', env_dune_query_id = ''42'',
      env_feishu_webhook_url = ''https://hook.example'',
      run_time = ''2026-01-05T07:00:00+08:00'',
      report_window = (''2025-12-29'', ''2026-01-04''),
      stablecoins = Inr example_assets,
      chart = Inr [PDict [(''totalCirculating'', PDict [(''peggedUSD'', PFloat 240)])]],
      dune_execute = Inr ''01'',
      dune_wait = Inr (),
      dune_serve = (\<lambda>n offset. Inr (page [PDict (volume_row ''usdt'' 2)] PNone)),
      history_file = NoFile,
      webhook = (\<lambda>m. None)\<rparr>"

section \<open>Theorems\<close>

subsection \<open>Top-20 selection and USDC supply\<close>

lemma collect_usd_assets_eq:
  "collect_usd_assets L assets u c = Inr (u', c') \<Longrightarrow>
     u' = u @ map (\<lambda>a. (trimmed_symbol L a, circulating_of L a))
            (filter (\<lambda>a. is_usd_pegged a \<and> trimmed_symbol L a \<noteq> []) assets)
     \<and> c' = c @ map (circulating_of L)
            (filter (\<lambda>a. is_usd_pegged a \<and> py_upper (trimmed_symbol L a) = ''USDC'') assets)"
proof (induction assets arbitrary: u c)
  case Nil
  then show ?case by simp
next
  case (Cons a rest)
  show ?case
  proof (cases "is_usd_pegged a \<and> trimmed_symbol L a \<noteq> []")
    case False
    then have "collect_usd_assets L rest u c = Inr (u', c')"
      using Cons.prems by (auto simp: is_usd_pegged_def trimmed_symbol_def Let_def split: if_splits)
    from Cons.IH [OF this] False show ?thesis
      by (auto simp: py_upper_def)
  next
    case True
    then obtain r where r: "get_pegged_usd_circulating L a = Inr r"
      using Cons.prems
      by (cases "get_pegged_usd_circulating L a")
         (auto simp: is_usd_pegged_def trimmed_symbol_def Let_def)
    have "collect_usd_assets L rest (u @ [(trimmed_symbol L a, r)])
            (if py_upper (trimmed_symbol L a) = ''USDC'' then c @ [r] else c) = Inr (u', c')"
      using Cons.prems True r
      by (simp add: is_usd_pegged_def trimmed_symbol_def Let_def)
    from Cons.IH [OF this] True r show ?thesis
      by (auto simp: circulating_of_def)
  qed
qed

lemma collect_usd_assets_ok:
  "extraction_succeeds L assets \<Longrightarrow> \<exists>r. collect_usd_assets L assets u c = Inr r"
proof (induction assets arbitrary: u c)
  case Nil
  then show ?case by simp
next
  case (Cons a rest)
  from Cons.prems have rest: "extraction_succeeds L rest"
    by (simp add: extraction_succeeds_def)
  show ?case
  proof (cases "is_usd_pegged a \<and> trimmed_symbol L a \<noteq> []")
    case False
    with Cons.IH [OF rest] show ?thesis
      by (auto simp: is_usd_pegged_def trimmed_symbol_def Let_def)
  next
    case True
    with Cons.prems have "has_circulating L a"
      by (simp add: extraction_succeeds_def)
    then obtain r where r: "get_pegged_usd_circulating L a = Inr r"
      by (cases "get_pegged_usd_circulating L a") (auto simp: has_circulating_def)
    with Cons.IH [OF rest] show ?thesis by (simp add: Let_def)
  qed
qed

lemma py_max_Max: "xs \<noteq> [] \<Longrightarrow> py_max xs = Inr (Max (set xs))"
proof -
  have "fold (\<lambda>y m. if m < y then y else m) ys x = Max (set (x # ys))" for ys and x :: real
  proof (induction ys arbitrary: x)
    case Nil then show ?case by simp
  next
    case (Cons y ys)
    have "(if x < y then y else x) = max x y" by (simp add: max_def)
    then have "fold (\<lambda>y m. if m < y then y else m) (y # ys) x = Max (set (max x y # ys))"
      using Cons.IH [of "max x y"] by simp
    also have "\<dots> = Max (set (x # y # ys))"
      by (cases "ys = []") (auto simp: Max_insert max.assoc)
    finally show ?case .
  qed
  then show "xs \<noteq> [] \<Longrightarrow> py_max xs = Inr (Max (set xs))"
    by (cases xs) simp_all
qed

lemma insort_key_map:
  "insort_key f (g x) (map g xs) = map g (insort_key (\<lambda>y. f (g y)) x xs)"
  by (induction xs) simp_all

lemma sort_key_map: "sort_key f (map g xs) = map g (sort_key (\<lambda>y. f (g y)) xs)"
  by (induction xs) (simp_all add: insort_key_map)

lemma filter_sort_key: "filter P (sort_key f xs) = sort_key f (filter P xs)"
  by (induction xs) (simp_all add: filter_insort_triv filter_insort sorted_sort_key)

lemma distinct_dedup_first: "distinct (dedup_first xs)"
proof (induction xs rule: dedup_first.induct)
  case 1 show ?case by simp
next
  case (2 x xs)
  have "set (dedup_first ys) \<subseteq> set ys" for ys :: "'a list"
    by (induction ys rule: dedup_first.induct) auto
  then have "x \<notin> set (dedup_first (filter (\<lambda>y. y \<noteq> x) xs))" by fastforce
  with 2 show ?case by simp
qed

lemma set_dedup_first: "set (dedup_first xs) = set xs"
  by (induction xs rule: dedup_first.induct) auto

lemma select_top_eq:
  "length tops < 20 \<Longrightarrow>
   select_top xs tops (set tops) =
     take 20 (tops @ dedup_first (filter (\<lambda>s. s \<notin> set tops) (map (\<lambda>p. py_lower (fst p)) xs)))"
proof (induction xs arbitrary: tops)
  case Nil
  then show ?case by simp
next
  case (Cons x rest)
  obtain symbol c where x: "x = (symbol, c)" by (cases x)
  let ?n = "py_lower symbol"
  show ?case
  proof (cases "?n \<in> set tops")
    case True
    with Cons x show ?thesis by (simp add: Let_def)
  next
    case False
    have flt: "filter (\<lambda>y. y \<noteq> ?n) (filter (\<lambda>s. s \<notin> set tops) ys) =
               filter (\<lambda>s. s \<notin> set (tops @ [?n])) ys" for ys
      by (induction ys) auto
    show ?thesis
    proof (cases "length tops = 19")
      case True
      with False x show ?thesis by (simp add: Let_def)
    next
      case ne: False
      with Cons.prems have "length (tops @ [?n]) < 20" by simp
      from Cons.IH [OF this] False ne x Cons.prems show ?thesis
        by (simp add: Let_def conj_commute)
    qed
  qed
qed

lemma finite_snd_set: "finite {c. (s, c) \<in> set ps}"
proof -
  have "{c. (s, c) \<in> set ps} \<subseteq> snd ` set ps" by force
  then show ?thesis by (rule finite_subset) simp
qed

lemma snd_filter_set: "set (map snd (filter (\<lambda>p. fst p = s) ps)) = {c. (s, c) \<in> set ps}"
  by force

lemma dedup_first_sorted_best:
  "sorted_wrt (\<lambda>p q. snd q \<le> snd p) ps \<Longrightarrow>
     sorted_wrt (\<lambda>s t. Max {c. (t, c) \<in> set ps} \<le> Max {c::real. (s, c) \<in> set ps})
       (dedup_first (map fst ps))"
proof (induction "length ps" arbitrary: ps rule: less_induct)
  case less
  show ?case
  proof (cases ps)
    case Nil
    then show ?thesis by simp
  next
    case (Cons p rest)
    obtain x c where p: "p = (x, c)" by (cases p)
    let ?rest = "filter (\<lambda>q. fst q \<noteq> x) rest"
    have flt: "filter (\<lambda>y. y \<noteq> x) (map fst rest) = map fst ?rest"
      by (induction rest) auto
    have srt: "sorted_wrt (\<lambda>p q. snd q \<le> snd p) ?rest"
      using less.prems Cons by (auto intro: sorted_wrt_filter)
    have len: "length ?rest < length ps"
      using Cons by (simp add: le_imp_less_Suc)
    have IH: "sorted_wrt (\<lambda>s t. Max {c. (t, c) \<in> set ?rest} \<le> Max {c. (s, c) \<in> set ?rest})
                (dedup_first (map fst ?rest))"
      by (rule less.hyps [OF len srt])
    have same: "{c. (t, c) \<in> set ?rest} = {c. (t, c) \<in> set ps}" if "t \<noteq> x" for t
      using that Cons p by auto
    have inrest: "t \<noteq> x \<and> t \<in> fst ` set rest" if "t \<in> set (dedup_first (map fst ?rest))" for t
      using that by (auto simp: set_dedup_first)
    have tail: "sorted_wrt (\<lambda>s t. Max {c. (t, c) \<in> set ps} \<le> Max {c. (s, c) \<in> set ps})
                (dedup_first (map fst ?rest))"
    proof (rule sorted_wrt_mono_rel [OF _ IH])
      fix s t
      assume s: "s \<in> set (dedup_first (map fst ?rest))"
        and t: "t \<in> set (dedup_first (map fst ?rest))"
        and le: "Max {c. (t, c) \<in> set ?rest} \<le> Max {c. (s, c) \<in> set ?rest}"
      from inrest [OF s] have "{c. (s, c) \<in> set ?rest} = {c. (s, c) \<in> set ps}"
        by (intro same) simp
      moreover from inrest [OF t] have "{c. (t, c) \<in> set ?rest} = {c. (t, c) \<in> set ps}"
        by (intro same) simp
      ultimately show "Max {c. (t, c) \<in> set ps} \<le> Max {c. (s, c) \<in> set ps}"
        using le by simp
    qed
    have le_c: "d \<le> c" if "(t, d) \<in> set ps" for t d
      using that less.prems Cons p by auto
    have maxx: "Max {d. (x, d) \<in> set ps} = c"
    proof (rule Max_eqI)
      show "finite {d. (x, d) \<in> set ps}" by (rule finite_snd_set)
      show "c \<in> {d. (x, d) \<in> set ps}" using Cons p by simp
      show "\<And>y. y \<in> {d. (x, d) \<in> set ps} \<Longrightarrow> y \<le> c" using le_c by blast
    qed
    have head: "Max {d. (t, d) \<in> set ps} \<le> Max {d. (x, d) \<in> set ps}"
      if "t \<in> set (dedup_first (map fst ?rest))" for t
    proof -
      from inrest [OF that] have "t \<in> fst ` set rest" by simp
      then obtain d where "(t, d) \<in> set rest" by force
      then have "(t, d) \<in> set ps" using Cons by simp
      then have ne: "{d. (t, d) \<in> set ps} \<noteq> {}" by blast
      have "Max {d. (t, d) \<in> set ps} \<in> {d. (t, d) \<in> set ps}"
        by (rule Max_in [OF finite_snd_set ne])
      then show ?thesis using le_c maxx by auto
    qed
    show ?thesis
      using tail head by (simp add: Cons p flt)
  qed
qed

lemma sorted_wrt_strict:
  assumes "sorted_wrt (\<lambda>s t. f t \<le> (f s :: real)) ts" and "distinct ts" and "inj_on f (set ts)"
  shows "sorted_wrt (\<lambda>s t. f t < f s) ts"
  unfolding sorted_wrt_iff_nth_less
proof (intro allI impI)
  fix i j assume ij: "i < j" "j < length ts"
  then have "f (ts ! j) \<le> f (ts ! i)"
    using assms(1) by (simp add: sorted_wrt_iff_nth_less)
  moreover have "ts ! i \<noteq> ts ! j"
    using ij assms(2) by (simp add: nth_eq_iff_index_eq)
  then have "f (ts ! i) \<noteq> f (ts ! j)"
    using assms(3) ij by (auto dest: inj_onD)
  ultimately show "f (ts ! j) < f (ts ! i)" by simp
qed

lemma py_lower_Nil: "py_lower s = [] \<longleftrightarrow> s = []"
  by (simp add: py_lower_def)

lemma spec_usd_pairs_eq:
  "spec_usd_pairs L assets =
     map (\<lambda>p. (py_lower (fst p), snd p))
       (map (\<lambda>a. (trimmed_symbol L a, circulating_of L a))
          (filter (\<lambda>a. is_usd_pegged a \<and> trimmed_symbol L a \<noteq> []) assets))"
  by (induction assets) (auto simp: spec_usd_pairs_def normalized_symbol_def py_lower_Nil)

lemma select_top_spec:
  assumes "u = map (\<lambda>a. (trimmed_symbol L a, circulating_of L a))
            (filter (\<lambda>a. is_usd_pegged a \<and> trimmed_symbol L a \<noteq> []) assets)"
  shows "select_top (sorted_desc u) [] {} = spec_top20 L assets"
proof -
  have "select_top (sorted_desc u) [] (set []) =
          take 20 ([] @ dedup_first (filter (\<lambda>s. s \<notin> set []) (map (\<lambda>p. py_lower (fst p)) (sorted_desc u))))"
    by (rule select_top_eq) simp
  moreover have "map (\<lambda>p. py_lower (fst p)) (sorted_desc u) =
      map fst (sort_key (\<lambda>p. - snd p) (spec_usd_pairs L assets))"
    unfolding spec_usd_pairs_eq assms [symmetric] sorted_desc_def
    by (simp add: sort_key_map comp_def)
  ultimately show ?thesis by (simp add: spec_top20_def)
qed

lemma spec_top20_props:
  "distinct (spec_top20 L assets) \<and> length (spec_top20 L assets) \<le> 20
   \<and> sorted_wrt (\<lambda>s t. best_circulating L assets t \<le> best_circulating L assets s)
        (spec_top20 L assets)
   \<and> (distinct (map snd (spec_usd_pairs L assets)) \<longrightarrow>
        sorted_wrt (\<lambda>s t. best_circulating L assets t < best_circulating L assets s)
          (spec_top20 L assets))"
proof -
  let ?ps = "sort_key (\<lambda>p. - snd p) (spec_usd_pairs L assets)"
  let ?B = "best_circulating L assets"
  have d: "distinct (spec_top20 L assets)"
    by (simp add: spec_top20_def distinct_dedup_first)
  have "sorted (map (\<lambda>p. - snd p) ?ps)" by (rule sorted_sort_key)
  then have "sorted_wrt (\<lambda>p q. snd q \<le> snd p) ?ps"
    by (simp add: sorted_map)
  from dedup_first_sorted_best [OF this]
  have "sorted_wrt (\<lambda>s t. ?B t \<le> ?B s) (dedup_first (map fst ?ps))"
    unfolding best_circulating_def snd_filter_set by simp
  then have s: "sorted_wrt (\<lambda>s t. ?B t \<le> ?B s) (spec_top20 L assets)"
    unfolding spec_top20_def by (rule sorted_wrt_take)
  have strict: "sorted_wrt (\<lambda>s t. ?B t < ?B s) (spec_top20 L assets)"
    if dist: "distinct (map snd (spec_usd_pairs L assets))"
  proof (rule sorted_wrt_strict [OF s d])
    have sub: "set (spec_top20 L assets) \<subseteq> fst ` set (spec_usd_pairs L assets)"
      unfolding spec_top20_def using set_take_subset [of 20 "dedup_first (map fst ?ps)"]
      by (auto simp: set_dedup_first)
    have mem: "(x, ?B x) \<in> set (spec_usd_pairs L assets)" if "x \<in> set (spec_top20 L assets)" for x
    proof -
      from that sub obtain c where "(x, c) \<in> set (spec_usd_pairs L assets)" by force
      then have "{c. (x, c) \<in> set (spec_usd_pairs L assets)} \<noteq> {}" by blast
      from Max_in [OF finite_snd_set this] show ?thesis
        unfolding best_circulating_def snd_filter_set by simp
    qed
    have inj: "inj_on snd (set (spec_usd_pairs L assets))"
      using dist by (simp add: distinct_map)
    show "inj_on ?B (set (spec_top20 L assets))"
    proof (rule inj_onI)
      fix x y assume xy: "x \<in> set (spec_top20 L assets)" "y \<in> set (spec_top20 L assets)" "?B x = ?B y"
      from inj_onD [OF inj _ mem [OF xy(1)] mem [OF xy(2)]] xy(3) show "x = y" by simp
    qed
  qed
  from d s strict show ?thesis by (simp add: spec_top20_def)
qed

lemma bitlen_2_1024: "bitlen (2 ^ 1024) = 1025"
proof -
  have "bitlen (1 * 2 ^ 1024) = bitlen 1 + int (1024::nat)"
    by (rule bitlen_pow2) simp
  moreover have "bitlen 1 = 1"
    by (simp add: bitlen_def compute_floorlog)
  ultimately show ?thesis by simp
qed

lemma rd_2_1024: "rd (2 ^ 1024) = 2 ^ 1024"
proof -
  have fl: "\<lfloor>\<bar>2 ^ 1024 :: real\<bar>\<rfloor> = 2 ^ 1024"
    by simp
  have "binexp (2 ^ 1024) = 1024"
    unfolding binexp_def fl bitlen_2_1024 by simp
  moreover have "(2 ^ 1024 :: real) / pow2 (1024 - 52) = 2 ^ 52"
    by (simp add: pow2_def)
  moreover have "rne (2 ^ 52) = 2 ^ 52"
    by (simp add: rne_def Let_def)
  moreover have "(2 ^ 52 :: real) * pow2 (1024 - 52) = 2 ^ 1024"
    by (simp add: pow2_def)
  ultimately show ?thesis
    by (simp add: rd_def Let_def)
qed

lemma float_of_int_2_1024: "float_of_int (2 ^ 1024) = Inl OverflowError"
proof -
  have "rd (of_int (2 ^ 1024)) = 2 ^ 1024" using rd_2_1024 by simp
  then show ?thesis
    unfolding float_of_int_def Let_def by simp
qed

lemma build_top20_eq:
  assumes ok: "extraction_succeeds L assets"
  shows "build_top20_symbols_and_usdc_supply L assets =
     (if spec_usd_pairs L assets = []
      then Inl (WeeklyReportError ''No peggedUSD assets found in DefiLlama response'')
      else if usdc_values L assets = []
      then Inl (WeeklyReportError ''USDC supply not found in DefiLlama stablecoins list'')
      else Inr (spec_top20 L assets, Max (set (usdc_values L assets))))"
proof -
  from collect_usd_assets_ok [OF ok] obtain u c where
    col: "collect_usd_assets L assets [] [] = Inr (u, c)" by fastforce
  from collect_usd_assets_eq [OF col] have
    u: "u = map (\<lambda>a. (trimmed_symbol L a, circulating_of L a))
            (filter (\<lambda>a. is_usd_pegged a \<and> trimmed_symbol L a \<noteq> []) assets)"
    and c: "c = usdc_values L assets"
    by (simp_all add: usdc_values_def)
  have empty: "(u = []) = (spec_usd_pairs L assets = [])"
    by (simp add: spec_usd_pairs_eq u)
  show ?thesis
    using col empty c select_top_spec [OF u] py_max_Max [of c]
    by (simp add: build_top20_symbols_and_usdc_supply_def)
qed

lemma build_top20_Inr:
  assumes "build_top20_symbols_and_usdc_supply L assets = Inr (tops, supply)"
  shows "tops = spec_top20 L assets \<and> usdc_values L assets \<noteq> []
         \<and> supply = Max (set (usdc_values L assets))"
proof -
  from assms obtain u c where
    col: "collect_usd_assets L assets [] [] = Inr (u, c)"
    by (auto simp: build_top20_symbols_and_usdc_supply_def split: sum.splits)
  from collect_usd_assets_eq [OF col] have
    u: "u = map (\<lambda>a. (trimmed_symbol L a, circulating_of L a))
            (filter (\<lambda>a. is_usd_pegged a \<and> trimmed_symbol L a \<noteq> []) assets)"
    and c: "c = usdc_values L assets"
    by (simp_all add: usdc_values_def)
  from assms col have ne: "c \<noteq> []" and res: "py_max c = Inr supply"
    and tops: "tops = select_top (sorted_desc u) [] {}"
    by (auto simp: build_top20_symbols_and_usdc_supply_def split: sum.splits if_splits)
  from res py_max_Max [OF ne] have "supply = Max (set c)" by simp
  with ne tops c select_top_spec [OF u] show ?thesis by simp
qed

text \<open>
  C3. Whenever \<^verbatim>\<open>build_top20_symbols_and_usdc_supply\<close> returns, the selected symbols are
  those of the specification's pipeline: keep the USD-pegged assets, normalize the symbol
  (trimmed, lowercase), drop empty symbols, sort by circulating amount descending,
  deduplicate keeping the first occurrence, take the first 20. The selection has no duplicate
  and at most 20 elements and is ordered by descending circulating amount, strictly so when
  the circulating amounts are distinct. It returns whenever the
  extraction of the circulating amount succeeds on the list and there is a USDC record.
\<close>

theorem top20_selection_refines_spec:
  "(extraction_succeeds L assets \<and> usdc_values L assets \<noteq> [] \<longrightarrow>
      (\<exists>supply. build_top20_symbols_and_usdc_supply L assets
                  = Inr (spec_top20 L assets, supply)))
   \<and> (\<forall>tops supply. build_top20_symbols_and_usdc_supply L assets = Inr (tops, supply) \<longrightarrow>
        tops = spec_top20 L assets \<and> distinct tops \<and> length tops \<le> 20
        \<and> sorted_wrt (\<lambda>s t. best_circulating L assets t \<le> best_circulating L assets s) tops
        \<and> (distinct (map snd (spec_usd_pairs L assets)) \<longrightarrow>
             sorted_wrt (\<lambda>s t. best_circulating L assets t < best_circulating L assets s) tops))"
proof (intro conjI impI allI)
  assume a: "extraction_succeeds L assets \<and> usdc_values L assets \<noteq> []"
  then obtain x where x: "x \<in> set assets" "is_usd_pegged x"
      "py_upper (trimmed_symbol L x) = ''USDC''"
    by (auto simp: usdc_values_def filter_empty_conv)
  then have "trimmed_symbol L x \<noteq> []" by (auto simp: py_upper_def)
  with x have ne: "spec_usd_pairs L assets \<noteq> []"
    by (auto simp: spec_usd_pairs_eq filter_empty_conv)
  from a ne show "\<exists>supply. build_top20_symbols_and_usdc_supply L assets
                  = Inr (spec_top20 L assets, supply)"
    by (simp add: build_top20_eq)
next
  fix tops usdc_supply
  assume r: "build_top20_symbols_and_usdc_supply L assets = Inr (tops, usdc_supply)"
  from build_top20_Inr [OF r] have t: "tops = spec_top20 L assets" by simp
  from t show "tops = spec_top20 L assets" .
  from t spec_top20_props [of L assets] show "distinct tops" by simp
  from t spec_top20_props [of L assets] show "length tops \<le> 20" by simp
  from t spec_top20_props [of L assets]
  show "sorted_wrt (\<lambda>s t. best_circulating L assets t \<le> best_circulating L assets s) tops"
    by simp
  assume "distinct (map snd (spec_usd_pairs L assets))"
  with t spec_top20_props [of L assets]
  show "sorted_wrt (\<lambda>s t. best_circulating L assets t < best_circulating L assets s) tops"
    by simp
qed

lemma example_build:
  "build_top20_symbols_and_usdc_supply no_lib example_assets
     = Inr ([''usdt'', ''usdc'', ''dai''], 30)"
  by code_simp

lemma example_distinct: "distinct (map snd (spec_usd_pairs no_lib example_assets))"
  by code_simp

lemma example_has_circulating: "extraction_succeeds no_lib example_assets"
  by code_simp

lemma example_usdc_values: "usdc_values no_lib example_assets = [30, 20]"
  by code_simp

theorem top20_selection_refines_spec_witness:
  "build_top20_symbols_and_usdc_supply no_lib example_assets
     = Inr ([''usdt'', ''usdc'', ''dai''], 30)
   \<and> spec_top20 no_lib example_assets = [''usdt'', ''usdc'', ''dai'']
   \<and> sorted_wrt (\<lambda>s t. best_circulating no_lib example_assets t
                        < best_circulating no_lib example_assets s) [''usdt'', ''usdc'', ''dai'']"
proof -
  note r = top20_selection_refines_spec [where L = no_lib and assets = example_assets, THEN conjunct2, rule_format,
      OF example_build]
  from r have "[''usdt'', ''usdc'', ''dai''] = spec_top20 no_lib example_assets"
    by (rule conjunct1)
  then have A: "spec_top20 no_lib example_assets = [''usdt'', ''usdc'', ''dai'']"
    by (rule sym)
  note B = r [THEN conjunct2, THEN conjunct2, THEN conjunct2, THEN conjunct2, THEN mp,
      OF example_distinct]
  from example_build A B show ?thesis by (intro conjI)
qed

text \<open>
  C4. For an asset list on which the extraction of the circulating amount succeeds: when
  there is a USD-pegged record whose trimmed symbol is USDC in any case of letters, the USDC supply is
  the maximum of the circulating amounts of these records, and when there is none the
  operation fails with \<^verbatim>\<open>WeeklyReportError\<close>. Whenever the operation returns, the supply is
  that maximum. For the amounts 10, 30, 20 it is 30.
\<close>

theorem usdc_supply_is_max:
  "(extraction_succeeds L assets \<longrightarrow>
      (usdc_values L assets \<noteq> [] \<longrightarrow>
         (\<exists>tops. build_top20_symbols_and_usdc_supply L assets
                   = Inr (tops, Max (set (usdc_values L assets)))))
      \<and> (usdc_values L assets = [] \<longrightarrow>
         (\<exists>m. build_top20_symbols_and_usdc_supply L assets = Inl (WeeklyReportError m))))
   \<and> (\<forall>tops s. build_top20_symbols_and_usdc_supply L assets = Inr (tops, s) \<longrightarrow>
         usdc_values L assets \<noteq> [] \<and> s = Max (set (usdc_values L assets)))
   \<and> build_top20_symbols_and_usdc_supply L
         [usd_asset ''USDC'' (PFloat 10), usd_asset ''USDC'' (PFloat 30),
          usd_asset ''USDC'' (PFloat 20)] = Inr ([''usdc''], 30)"
proof (intro conjI impI allI)
  assume ok: "extraction_succeeds L assets" and ne: "usdc_values L assets \<noteq> []"
  then obtain x where x: "x \<in> set assets" "is_usd_pegged x"
      "py_upper (trimmed_symbol L x) = ''USDC''"
    by (auto simp: usdc_values_def filter_empty_conv)
  then have "trimmed_symbol L x \<noteq> []" by (auto simp: py_upper_def)
  with x have "spec_usd_pairs L assets \<noteq> []"
    by (auto simp: spec_usd_pairs_eq filter_empty_conv)
  with ne show "\<exists>tops. build_top20_symbols_and_usdc_supply L assets
                   = Inr (tops, Max (set (usdc_values L assets)))"
    by (simp add: build_top20_eq [OF ok])
next
  assume ok: "extraction_succeeds L assets" and e: "usdc_values L assets = []"
  then show "\<exists>m. build_top20_symbols_and_usdc_supply L assets = Inl (WeeklyReportError m)"
    by (simp add: build_top20_eq [OF ok])
next
  fix tops s
  assume "build_top20_symbols_and_usdc_supply L assets = Inr (tops, s)"
  from build_top20_Inr [OF this]
  show "usdc_values L assets \<noteq> []" and "s = Max (set (usdc_values L assets))"
    by simp_all
next
  show "build_top20_symbols_and_usdc_supply L
         [usd_asset ''USDC'' (PFloat 10), usd_asset ''USDC'' (PFloat 30),
          usd_asset ''USDC'' (PFloat 20)] = Inr ([''usdc''], 30)"
    by code_simp
qed

theorem usdc_supply_is_max_witness:
  "extraction_succeeds no_lib example_assets
   \<and> usdc_values no_lib example_assets = [30, 20]
   \<and> (\<exists>tops. build_top20_symbols_and_usdc_supply no_lib example_assets = Inr (tops, 30))"
proof -
  have "Max (set (usdc_values no_lib example_assets)) = 30"
    by (simp add: example_usdc_values)
  with usdc_supply_is_max [where L = no_lib and assets = example_assets] example_has_circulating example_usdc_values
  show ?thesis by simp
qed

lemma py_float_errors:
  "py_float L v = Inl e \<Longrightarrow> e = TypeError \<or> e = ValueError \<or> e = OverflowError"
  by (cases v) (auto simp: float_of_int_def Let_def split: option.splits if_splits)

lemma get_pegged_usd_circulating_errors:
  "get_pegged_usd_circulating L asset = Inl e \<Longrightarrow> e = OverflowError"
  unfolding get_pegged_usd_circulating_def Let_def
  by (auto split: sum.splits error.splits dest: py_float_errors)

lemma get_pegged_usd_circulating_zero:
  assumes "v = (case py_get asset ''circulating'' of PDict d \<Rightarrow> py_get d ''peggedUSD''
                | c \<Rightarrow> c)"
    and "\<not> truthy v \<or> (\<exists>s. v = PStr s \<and> float_of_str L s = None)
         \<or> (\<exists>xs. v = PList xs) \<or> (\<exists>d. v = PDict d)"
  shows "get_pegged_usd_circulating L asset = Inr 0"
proof -
  have z: "float_of_int 0 = Inr 0"
    by (simp add: float_of_int_def rd_def)
  have "get_pegged_usd_circulating L asset =
      (case py_float L (py_or v (PInt 0)) of
           Inl TypeError \<Rightarrow> Inr 0
         | Inl ValueError \<Rightarrow> Inr 0
         | Inl e \<Rightarrow> Inl e
         | Inr r \<Rightarrow> Inr r)"
    unfolding get_pegged_usd_circulating_def Let_def assms(1)
    by (cases "py_get asset ''circulating''") simp_all
  with assms(2) z show ?thesis
    by (auto simp: py_or_def)
qed

text \<open>
  C10. The extraction catches \<^verbatim>\<open>TypeError\<close> and \<^verbatim>\<open>ValueError\<close> only. An integer circulating
  amount beyond the binary64 range makes \<^verbatim>\<open>float\<close> raise \<^verbatim>\<open>OverflowError\<close>, which leaves
  \<^verbatim>\<open>get_pegged_usd_circulating\<close> and aborts \<^verbatim>\<open>build_top20_symbols_and_usdc_supply\<close>. The
  lemmas before the theorem show that this is the only error, and that a missing, null or
  unparseable amount is extracted as 0.
\<close>

theorem circulating_overflow_not_caught:
  "get_pegged_usd_circulating L (usd_asset ''BIG'' (PInt (2 ^ 1024))) = Inl OverflowError
   \<and> build_top20_symbols_and_usdc_supply L
         [usd_asset ''USDC'' (PFloat 10), usd_asset ''BIG'' (PInt (2 ^ 1024))]
       = Inl OverflowError"
proof -
  have g: "get_pegged_usd_circulating L (usd_asset ''BIG'' (PInt (2 ^ 1024))) = Inl OverflowError"
    using float_of_int_2_1024
    by (simp add: get_pegged_usd_circulating_def usd_asset_def py_get_def py_or_def)
  have "get_pegged_usd_circulating L (usd_asset ''USDC'' (PFloat 10)) = Inr 10"
    by (simp add: get_pegged_usd_circulating_def usd_asset_def py_get_def py_or_def)
  moreover have "py_get (usd_asset s v) ''pegType'' = PStr ''peggedUSD''" for s v
    by (simp add: usd_asset_def py_get_def)
  moreover have "py_strip (py_str L (py_or (py_get (usd_asset ''USDC'' v) ''symbol'') (PStr [])))
                 = ''USDC''" for v
    by (simp add: usd_asset_def py_get_def py_or_def py_str_def py_strip_def is_space_def)
  moreover have "py_strip (py_str L (py_or (py_get (usd_asset ''BIG'' v) ''symbol'') (PStr [])))
                 = ''BIG''" for v
    by (simp add: usd_asset_def py_get_def py_or_def py_str_def py_strip_def is_space_def)
  ultimately show ?thesis
    using g by (simp add: build_top20_symbols_and_usdc_supply_def Let_def)
qed
subsection \<open>Volume totals and the share\<close>

lemma rne_of_int: "rne (of_int m) = m"
  by (simp add: rne_def)

lemma pow2_neg: "0 \<le> k \<Longrightarrow> pow2 (- k) = 1 / 2 ^ nat k"
  by (simp add: pow2_def)

lemma rd_of_int:
  assumes "\<bar>n\<bar> < 2 ^ 53"
  shows "rd (of_int n) = of_int n"
proof (cases "n = 0")
  case True
  then show ?thesis by (simp add: rd_def)
next
  case False
  then have pos: "0 < \<bar>n\<bar>" by simp
  have fl: "\<lfloor>\<bar>real_of_int n\<bar>\<rfloor> = \<bar>n\<bar>"
    by (metis floor_of_int of_int_abs)
  have "1 \<le> \<bar>n\<bar>" using False by linarith
  then have ge1: "1 \<le> \<bar>real_of_int n\<bar>"
    by (metis of_int_1_le_iff of_int_abs)
  have e: "binexp (of_int n) = bitlen \<bar>n\<bar> - 1"
    using ge1 by (simp add: binexp_def fl)
  from bitlen_bounds [OF pos] have "2 ^ nat (bitlen \<bar>n\<bar> - 1) \<le> \<bar>n\<bar>" by simp
  with assms have lt: "(2::int) ^ nat (bitlen \<bar>n\<bar> - 1) < 2 ^ 53" by simp
  have "nat (bitlen \<bar>n\<bar> - 1) < 53"
  proof (rule power_less_imp_less_exp)
    show "(1::int) < 2" by simp
    show "(2::int) ^ nat (bitlen \<bar>n\<bar> - 1) < 2 ^ 53" by (rule lt)
  qed
  then have k: "0 \<le> 52 - (bitlen \<bar>n\<bar> - 1)" by simp
  define k where "k = 52 - (bitlen \<bar>n\<bar> - 1)"
  have u: "pow2 (binexp (of_int n) - 52) = 1 / 2 ^ nat k"
    using pow2_neg [of k] k by (simp add: e k_def)
  have "real_of_int n / (1 / 2 ^ nat k) = of_int (n * 2 ^ nat k)" by simp
  then have "rne (real_of_int n / (1 / 2 ^ nat k)) = n * 2 ^ nat k"
    by (simp only: rne_of_int)
  then show ?thesis
    using False by (simp add: rd_def u Let_def)
qed

lemma rd_numeral [simp]: "\<bar>numeral w :: int\<bar> < 2 ^ 53 \<Longrightarrow> rd (numeral w) = numeral w"
  using rd_of_int [of "numeral w"] by simp

lemma update_fresh: "k \<notin> fst ` set al \<Longrightarrow> AList.update k v al = al @ [(k, v)]"
  by (induction al) auto

lemma split_symbols_eq:
  "distinct symbols \<Longrightarrow> set symbols \<inter> fst ` set denom = {} \<Longrightarrow>
   split_symbols totals symbols missing denom =
     (missing @ missing_of totals symbols, denom @ present_totals totals symbols)"
proof (induction symbols arbitrary: missing denom)
  case Nil
  then show ?case by (simp add: missing_of_def present_totals_def)
next
  case (Cons s rest)
  show ?case
  proof (cases "map_of totals s")
    case None
    with Cons show ?thesis by (simp add: missing_of_def present_totals_def)
  next
    case (Some v)
    from Cons.prems have fresh: "s \<notin> fst ` set denom" by auto
    have "set rest \<inter> fst ` set (denom @ [(s, v)]) = {}"
      using Cons.prems by auto
    with Cons.IH [of "denom @ [(s, v)]" missing] Cons.prems Some fresh show ?thesis
      by (simp add: missing_of_def present_totals_def update_fresh)
  qed
qed

lemma split_symbols_map_of:
  "map_of (snd (split_symbols totals symbols missing denom)) k =
     (if k \<in> set symbols \<and> map_of totals k \<noteq> None then map_of totals k else map_of denom k)"
proof (induction symbols arbitrary: missing denom)
  case Nil
  then show ?case by simp
next
  case (Cons s rest)
  then show ?case
    by (cases "map_of totals s") (auto simp: update_conv')
qed

lemma rd_two_fifths: "rd (2 / 5) = 3602879701896397 / 9007199254740992"
  by (simp add: rd_def binexp_def pow2_def rne_def bitlen_def compute_floorlog Let_def)

lemma row_entry_error: "row_entry L row = Some (Inl e) \<Longrightarrow> e = OverflowError"
  unfolding row_entry_def Let_def
  by (auto split: if_splits sum.splits error.splits dest: py_float_errors)

lemma accumulate_rows_eq:
  "accumulate_rows L rows totals =
     (if list_ex (failing_row L) rows then Inl OverflowError
      else Inr (fold add_volume (volume_entries L rows) totals))"
proof (induction rows arbitrary: totals)
  case Nil
  then show ?case by (simp add: volume_entries_def map_filter_simps)
next
  case (Cons row rest)
  show ?case
  proof (cases "row_entry L row")
    case None
    then have "accumulate_rows L (row # rest) totals = accumulate_rows L rest totals"
      by (auto simp: row_entry_def Let_def split: if_splits sum.splits error.splits)
    with None Cons show ?thesis
      by (simp add: volume_entries_def usable_entry_def failing_row_def)
  next
    case (Some r)
    show ?thesis
    proof (cases r)
      case (Inl e)
      with Some row_entry_error have e: "e = OverflowError" by blast
      with Some Inl have "accumulate_rows L (row # rest) totals = Inl OverflowError"
        by (auto simp: row_entry_def Let_def split: if_splits sum.splits error.splits)
      with Some Inl show ?thesis by (simp add: failing_row_def)
    next
      case (Inr p)
      with Some have "accumulate_rows L (row # rest) totals
          = accumulate_rows L rest (add_volume p totals)"
        by (auto simp: row_entry_def Let_def add_volume_def
            split: if_splits sum.splits error.splits)
      with Some Inr Cons show ?thesis
        by (simp add: volume_entries_def usable_entry_def failing_row_def)
    qed
  qed
qed

lemma dom_fold_add_volume:
  "dom (map_of (fold add_volume es totals)) = dom (map_of totals) \<union> fst ` set es"
  by (induction es arbitrary: totals) (auto simp: add_volume_def update_conv')

lemma fold_add_volume_Nil: "fold add_volume es [] = [] \<longleftrightarrow> es = []"
proof
  assume "fold add_volume es [] = []"
  then have "dom (map_of (fold add_volume es [])) = {}" by simp
  then show "es = []" by (simp add: dom_fold_add_volume)
qed simp

lemma extract_dune_symbol_totals_eq:
  "extract_dune_symbol_totals L rows =
     (if list_ex (failing_row L) rows then Inl OverflowError
      else if volume_entries L rows = []
      then Inl (WeeklyReportError
            (''Dune query rows did not contain usable symbol and volume columns. '' @
             ''Expected columns like symbol + volume_7d_usd.''))
      else Inr (fold add_volume (volume_entries L rows) []))"
  by (simp add: extract_dune_symbol_totals_def accumulate_rows_eq fold_add_volume_Nil)

lemma set_volume_entries:
  "set (volume_entries L rows) = {p. \<exists>row \<in> set rows. usable_entry L row = Some p}"
  by (force simp: volume_entries_def map_filter_def)

lemma mset_volume_entries:
  "mset (volume_entries L rows) =
     image_mset (\<lambda>row. the (usable_entry L row))
       (filter_mset (\<lambda>row. usable_entry L row \<noteq> None) (mset rows))"
  by (simp add: volume_entries_def map_filter_def comp_def)

lemma rd_Ints:
  assumes "x \<in> \<int>" and "\<bar>x\<bar> < 2 ^ 53"
  shows "rd x = x"
proof -
  from assms(1) obtain n where n: "x = of_int n" by (auto elim: Ints_cases)
  with assms(2) have "real_of_int \<bar>n\<bar> < real_of_int (2 ^ 53)" by simp
  then have "\<bar>n\<bar> < 2 ^ 53" by (simp only: of_int_less_iff)
  from rd_of_int [OF this] n show ?thesis by simp
qed

lemma abs_sum_filter_le:
  "\<bar>sum_list (map snd (filter P es))\<bar> \<le> sum_list (map (\<lambda>p. \<bar>snd p :: real\<bar>) es)"
  by (induction es) auto

lemma sum_filter_Ints:
  "list_all (\<lambda>p. snd p \<in> \<int>) es \<Longrightarrow> sum_list (map snd (filter P es)) \<in> (\<int> :: real set)"
  by (induction es) auto

lemma fold_add_volume_exact:
  assumes "list_all (\<lambda>p. snd p \<in> \<int>) es" and "sum_list (map (\<lambda>p. \<bar>snd p\<bar>) es) < 2 ^ 53"
  shows "map_of (fold add_volume es []) =
     (\<lambda>s. if s \<in> fst ` set es then Some (sum_list (map snd (filter (\<lambda>p. fst p = s) es)))
          else None)"
  using assms
proof (induction es rule: rev_induct)
  case Nil
  then show ?case by auto
next
  case (snoc p es)
  let ?T = "fold add_volume es []"
  let ?S = "\<lambda>s xs. sum_list (map snd (filter (\<lambda>p. fst p = s) xs))"
  from snoc.prems have H: "list_all (\<lambda>p. snd p \<in> \<int>) es" "sum_list (map (\<lambda>p. \<bar>snd p\<bar>) es) < 2 ^ 53"
    by auto
  note IH = snoc.IH [OF H]
  have old: "(case map_of ?T (fst p) of None \<Rightarrow> 0 | Some t \<Rightarrow> t) = ?S (fst p) es"
  proof (cases "fst p \<in> fst ` set es")
    case True
    then show ?thesis by (simp add: IH)
  next
    case False
    then have "\<forall>q \<in> set es. fst q \<noteq> fst p"
      by (metis image_eqI)
    then have "filter (\<lambda>q. fst q = fst p) es = []"
      by (simp add: filter_empty_conv)
    with False show ?thesis by (simp add: IH)
  qed
  have new: "?S (fst p) es + snd p = ?S (fst p) (es @ [p])" by simp
  have "\<bar>?S (fst p) (es @ [p])\<bar> \<le> sum_list (map (\<lambda>p. \<bar>snd p\<bar>) (es @ [p]))"
    by (rule abs_sum_filter_le)
  with snoc.prems(2) have "\<bar>?S (fst p) (es @ [p])\<bar> < 2 ^ 53" by linarith
  moreover have "?S (fst p) (es @ [p]) \<in> \<int>"
    by (rule sum_filter_Ints [OF snoc.prems(1)])
  ultimately have "rd (?S (fst p) (es @ [p])) = ?S (fst p) (es @ [p])"
    by (intro rd_Ints)
  then have upd: "fadd (case map_of ?T (fst p) of None \<Rightarrow> 0 | Some t \<Rightarrow> t) (snd p)
               = ?S (fst p) (es @ [p])"
    unfolding fadd_def old new .
  have "map_of (fold add_volume (es @ [p]) []) = (map_of ?T)(fst p \<mapsto> ?S (fst p) (es @ [p]))"
    by (simp add: add_volume_def update_conv' upd del: filter_append map_append sum_list_append)
  also have "\<dots> = (\<lambda>s. if s \<in> fst ` set (es @ [p]) then Some (?S s (es @ [p])) else None)"
    by (rule ext) (auto simp: IH)
  finally show ?case .
qed

lemma sum_list_mset_cong:
  "mset xs = mset ys \<Longrightarrow> sum_list (map f xs) = (sum_list (map f ys) :: real)"
  by (metis mset_map sum_mset_sum_list)

lemma exact_volumes_Ints:
  "exact_volumes L rows \<Longrightarrow> list_all (\<lambda>p. snd p \<in> \<int>) (volume_entries L rows)"
  unfolding exact_volumes_def list_all_iff by (metis Ints_of_int)

text \<open>
  C9, as amended. For every permutation of the rows the extraction fails with the same error
  or yields totals for the same set of normalized symbols. The total of a symbol is the
  float sum of its volumes in the order of the rows, so the totals of a permutation may
  differ by rounding; they are the same mapping whenever the additions are exact, which is
  the case when the usable volumes are integers whose absolute values sum to less than
  \<open>2\<^sup>5\<^sup>3\<close>.
\<close>

theorem extract_totals_permutation:
  assumes "mset rows' = mset rows"
  shows "map_sum id (\<lambda>t. dom (map_of t)) (extract_dune_symbol_totals L rows')
           = map_sum id (\<lambda>t. dom (map_of t)) (extract_dune_symbol_totals L rows)
         \<and> (exact_volumes L rows \<longrightarrow>
              map_sum id map_of (extract_dune_symbol_totals L rows')
                = map_sum id map_of (extract_dune_symbol_totals L rows))"
proof
  from assms have set: "set rows' = set rows" by (rule mset_eq_setD)
  have fail: "list_ex (failing_row L) rows' = list_ex (failing_row L) rows"
    by (simp add: list_ex_iff set)
  have ms: "mset (volume_entries L rows') = mset (volume_entries L rows)"
    by (simp add: mset_volume_entries assms)
  then have se: "set (volume_entries L rows') = set (volume_entries L rows)"
    by (rule mset_eq_setD)
  then have emp: "(volume_entries L rows' = []) = (volume_entries L rows = [])"
    by (metis set_empty)
  show "map_sum id (\<lambda>t. dom (map_of t)) (extract_dune_symbol_totals L rows')
           = map_sum id (\<lambda>t. dom (map_of t)) (extract_dune_symbol_totals L rows)"
    by (simp add: extract_dune_symbol_totals_eq fail emp dom_fold_add_volume se)
  show "exact_volumes L rows \<longrightarrow>
              map_sum id map_of (extract_dune_symbol_totals L rows')
                = map_sum id map_of (extract_dune_symbol_totals L rows)"
  proof
    assume ex: "exact_volumes L rows"
    have sums: "sum_list (map (\<lambda>p. \<bar>snd p\<bar>) (volume_entries L rows'))
                = sum_list (map (\<lambda>p. \<bar>snd p\<bar>) (volume_entries L rows))"
      by (rule sum_list_mset_cong [OF ms])
    from ex have ex': "exact_volumes L rows'"
      by (simp add: exact_volumes_def list_all_iff se sums)
    have part: "sum_list (map snd (filter P (volume_entries L rows')))
                = sum_list (map snd (filter P (volume_entries L rows)))" for P
      by (rule sum_list_mset_cong) (simp add: ms)
    have bound: "exact_volumes L rs \<Longrightarrow>
        sum_list (map (\<lambda>p. \<bar>snd p\<bar>) (volume_entries L rs)) < 2 ^ 53" for rs
      by (simp add: exact_volumes_def)
    have m': "map_of (fold add_volume (volume_entries L rows') []) =
        (\<lambda>s. if s \<in> fst ` set (volume_entries L rows')
              then Some (sum_list (map snd (filter (\<lambda>p. fst p = s) (volume_entries L rows'))))
              else None)"
      by (rule fold_add_volume_exact [OF exact_volumes_Ints [OF ex'] bound [OF ex']])
    have m: "map_of (fold add_volume (volume_entries L rows) []) =
        (\<lambda>s. if s \<in> fst ` set (volume_entries L rows)
              then Some (sum_list (map snd (filter (\<lambda>p. fst p = s) (volume_entries L rows))))
              else None)"
      by (rule fold_add_volume_exact [OF exact_volumes_Ints [OF ex] bound [OF ex]])
    have "map_of (fold add_volume (volume_entries L rows') [])
          = map_of (fold add_volume (volume_entries L rows) [])"
      unfolding m m' se by (rule ext) (simp only: part)
    then show "map_sum id map_of (extract_dune_symbol_totals L rows')
                = map_sum id map_of (extract_dune_symbol_totals L rows)"
      by (simp add: extract_dune_symbol_totals_eq fail emp)
  qed
qed

lemma small_rows_permuted_mset: "mset small_rows_permuted = mset small_rows"
  by (simp add: small_rows_permuted_def small_rows_def)

lemma small_rows_exact: "exact_volumes no_lib small_rows"
  by code_simp

lemma small_rows_totals:
  "extract_dune_symbol_totals no_lib small_rows = Inr [(''usdc'', 4), (''usdt'', 2)]"
  by code_simp

theorem extract_totals_permutation_witness:
  "mset small_rows_permuted = mset small_rows
   \<and> exact_volumes no_lib small_rows
   \<and> extract_dune_symbol_totals no_lib small_rows = Inr [(''usdc'', 4), (''usdt'', 2)]
   \<and> map_sum id map_of (extract_dune_symbol_totals no_lib small_rows_permuted)
       = map_sum id map_of (extract_dune_symbol_totals no_lib small_rows)"
  using extract_totals_permutation [OF small_rows_permuted_mset, of no_lib]
    small_rows_permuted_mset small_rows_exact small_rows_totals
  by blast

lemma rd_large_plus_one: "rd (10000000000000000 + 1) = 10000000000000000"
  by (simp add: rd_def binexp_def pow2_def rne_def bitlen_def compute_floorlog Let_def)

lemma rd_large: "rd 10000000000000000 = 10000000000000000"
  by (simp add: rd_def binexp_def pow2_def rne_def bitlen_def compute_floorlog Let_def)

lemma rd_one: "rd 1 = 1"
  using rd_of_int [of 1] by simp

text \<open>
  C9, as stated, fails: float addition is not associative. Three rows for one symbol with the
  volumes \<open>10\<^sup>1\<^sup>6\<close>, 1 and \<open>- 10\<^sup>1\<^sup>6\<close> total 0 in this order (the sum \<open>10\<^sup>1\<^sup>6 + 1\<close> rounds to
  \<open>10\<^sup>1\<^sup>6\<close>) and 1 when the second and the third row are exchanged.
\<close>

theorem extract_totals_order_dependent:
  "mset large_rows_permuted = mset large_rows
   \<and> extract_dune_symbol_totals no_lib large_rows = Inr [(''usdc'', 0)]
   \<and> extract_dune_symbol_totals no_lib large_rows_permuted = Inr [(''usdc'', 1)]"
proof -
  have e: "volume_entries no_lib large_rows =
             [(''usdc'', 10000000000000000), (''usdc'', 1), (''usdc'', - 10000000000000000)]"
    by code_simp
  have e': "volume_entries no_lib large_rows_permuted =
             [(''usdc'', 10000000000000000), (''usdc'', - 10000000000000000), (''usdc'', 1)]"
    by code_simp
  have f: "\<not> list_ex (failing_row no_lib) large_rows"
    by code_simp
  have f': "\<not> list_ex (failing_row no_lib) large_rows_permuted"
    by code_simp
  have z: "rd 0 = 0" by (simp add: rd_def)
  have "mset large_rows_permuted = mset large_rows"
    by (simp add: large_rows_permuted_def large_rows_def)
  moreover have "extract_dune_symbol_totals no_lib large_rows = Inr [(''usdc'', 0)]"
    using rd_large rd_large_plus_one
    by (simp add: extract_dune_symbol_totals_eq e f add_volume_def fadd_def z)
  moreover have "extract_dune_symbol_totals no_lib large_rows_permuted = Inr [(''usdc'', 1)]"
    using rd_large rd_one
    by (simp add: extract_dune_symbol_totals_eq e' f' add_volume_def fadd_def z)
  ultimately show ?thesis by blast
qed

text \<open>
  C2. With the totals usdc 40 and usdt 60 and both symbols in the list the share is the float
  0.4, that is \<open>rd (4 / 10)\<close>. When usdc is not among the totals of the listed symbols the
  share is unavailable and nothing is raised. When usdc is present, the share is its total
  divided by the sum of the totals of the present symbols, unless that sum is zero (or
  negative): then \<^verbatim>\<open>WeeklyReportError\<close> is raised.
\<close>

theorem compute_dune_share_cases:
  "compute_dune_share [(''usdc'', 40), (''usdt'', 60)] [''usdc'', ''usdt'']
     = Inr (Some (rd (4 / 10)), [], [(''usdc'', 40), (''usdt'', 60)])
   \<and> (''usdc'' \<notin> set symbols \<or> map_of totals ''usdc'' = None \<longrightarrow>
        (\<exists>missing denominator_totals.
           compute_dune_share totals symbols = Inr (None, missing, denominator_totals)))
   \<and> (distinct symbols \<and> ''usdc'' \<in> set symbols \<and> map_of totals ''usdc'' = Some u \<longrightarrow>
        compute_dune_share totals symbols =
          (if py_sum (map snd (present_totals totals symbols)) \<le> 0
           then Inl (WeeklyReportError ''Dune denominator volume is zero'')
           else Inr (Some (fdiv u (py_sum (map snd (present_totals totals symbols)))),
                     missing_of totals symbols, present_totals totals symbols)))"
proof (intro conjI impI)
  show "compute_dune_share [(''usdc'', 40), (''usdt'', 60)] [''usdc'', ''usdt'']
     = Inr (Some (rd (4 / 10)), [], [(''usdc'', 40), (''usdt'', 60)])"
    by (simp add: compute_dune_share_def py_sum_def fadd_def fdiv_def)
next
  assume a: "''usdc'' \<notin> set symbols \<or> map_of totals ''usdc'' = None"
  obtain m d where s: "split_symbols totals symbols [] [] = (m, d)" by fastforce
  have "map_of d ''usdc'' = None"
    using split_symbols_map_of [of totals symbols "[]" "[]" "''usdc''"] a s by auto
  with s show "\<exists>missing denominator_totals.
           compute_dune_share totals symbols = Inr (None, missing, denominator_totals)"
    by (simp add: compute_dune_share_def)
next
  assume a: "distinct symbols \<and> ''usdc'' \<in> set symbols \<and> map_of totals ''usdc'' = Some u"
  then have s: "split_symbols totals symbols [] []
                 = (missing_of totals symbols, present_totals totals symbols)"
    using split_symbols_eq [of symbols "[]" totals "[]"] by simp
  have "map_of (present_totals totals symbols) ''usdc'' = Some u"
    using split_symbols_map_of [of totals symbols "[]" "[]" "''usdc''"] a s by simp
  with s show "compute_dune_share totals symbols =
          (if py_sum (map snd (present_totals totals symbols)) \<le> 0
           then Inl (WeeklyReportError ''Dune denominator volume is zero'')
           else Inr (Some (fdiv u (py_sum (map snd (present_totals totals symbols)))),
                     missing_of totals symbols, present_totals totals symbols))"
    by (simp add: compute_dune_share_def Let_def)
qed

theorem compute_dune_share_cases_witness:
  "(\<exists>missing denominator_totals.
      compute_dune_share [(''usdt'', 60)] [''usdc'', ''usdt'']
        = Inr (None, missing, denominator_totals))
   \<and> compute_dune_share [(''usdc'', 0), (''usdt'', 0)] [''usdc'', ''usdt'']
       = Inl (WeeklyReportError ''Dune denominator volume is zero'')"
proof -
  have z: "rd 0 = 0" by (simp add: rd_def)
  have "py_sum (map snd (present_totals [(''usdc'', 0), (''usdt'', 0)] [''usdc'', ''usdt''])) \<le> 0"
    by (simp add: present_totals_def py_sum_def fadd_def z)
  then show ?thesis
    using compute_dune_share_cases [of "[''usdc'', ''usdt'']" "[(''usdt'', 60)]" 0]
      compute_dune_share_cases [of "[''usdc'', ''usdt'']" "[(''usdc'', 0), (''usdt'', 0)]" 0]
    by simp
qed
subsection \<open>Deltas\<close>




subsection \<open>Loading the history\<close>


lemma dict_items_all: "list_all is_dict items \<Longrightarrow> map PDict (dict_items items) = items"
  by (induction items rule: dict_items.induct) simp_all



subsection \<open>Pagination\<close>

lemma read_page_page:
  "page_rows p = Some rs \<Longrightarrow> read_page (Inr p) rows = Inr (rows @ dict_items rs, cursor_of p)"
  by (auto simp: page_rows_def read_page_def cursor_of_def split: pyval.splits)

lemma fetch_loop_serves:
  "serves L serve n offset pages \<Longrightarrow>
     fetch_loop L serve n offset rows = Some (Inr (rows @ kept_rows pages))"
proof (induction L serve n offset pages arbitrary: rows rule: serves.induct)
  case (1 L serve n offset)
  then show ?case by simp
next
  case (2 L serve n offset p)
  then obtain rs where rs: "page_rows p = Some rs" by auto
  with 2 show ?case
    by (subst fetch_loop.simps) (simp add: read_page_page kept_rows_def)
next
  case (3 L serve n offset p q ps)
  from "3.prems" obtain rs where rs: "page_rows p = Some rs" by auto
  from "3.prems" obtain offset' where o: "py_int L (cursor_of p) = Inr offset'"
    and s: "serves L serve (Suc n) offset' (q # ps)"
    by (auto split: sum.splits)
  from "3.IH" [OF o s] have "fetch_loop L serve (Suc n) offset' (rows @ dict_items rs)
      = Some (Inr ((rows @ dict_items rs) @ kept_rows (q # ps)))" .
  with "3.prems" rs o show ?case
    by (subst fetch_loop.simps) (simp add: read_page_page kept_rows_def)
qed

lemma fetch_loop_returns_not_endless:
  assumes "fetch_loop L serve n offset rows = Some y"
  shows "\<not> (\<forall>n offset. has_next L (serve n offset))"
proof (rule fetch_loop.raw_induct
    [where P = "\<lambda>L serve n offset rows y. \<not> (\<forall>n offset. has_next L (serve n offset))",
     OF _ assms], goal_cases)
  case (1 f L serve n offset rows y)
  show ?case
  proof
    assume all: "\<forall>n offset. has_next L (serve n offset)"
    then have "has_next L (serve n offset)" by blast
    then obtain p rs offset' where p: "serve n offset = Inr p" "page_rows p = Some rs"
        "cursor_of p \<noteq> PNone" "py_int L (cursor_of p) = Inr offset'"
      by (auto simp: has_next_def split: sum.splits)
    with 1(2) have "f L serve (Suc n) offset' (rows @ dict_items rs) = Some y"
      by (simp add: read_page_page)
    from 1(1) [OF this] all show False by blast
  qed
qed

lemma fetch_loop_endless:
  assumes "\<forall>n offset. has_next L (serve n offset)"
  shows "fetch_loop L serve n offset rows = None"
proof (cases "fetch_loop L serve n offset rows")
  case None
  then show ?thesis .
next
  case (Some y)
  from fetch_loop_returns_not_endless [OF this] assms show ?thesis by blast
qed

text \<open>
  C5. Pagination starts with request 0 at offset 0. When the provider serves a sequence of
  pages of which only the last has no cursor, the retrieval reads all of them and stops at
  the last, whatever the number of rows of each page: the rows kept are the dict rows of
  all pages, the last included, the other rows are skipped, and when no row was kept the
  retrieval fails with \<^verbatim>\<open>WeeklyReportError\<close>. When every response is a page with a cursor, the
  retrieval never returns.
\<close>

theorem pagination_stops_at_absent_cursor:
  "(serves L serve 0 0 pages \<longrightarrow>
      fetch_dune_result_rows L serve =
        Some (if kept_rows pages = [] then Inl (WeeklyReportError ''Dune query returned no rows'')
              else Inr (kept_rows pages)))
   \<and> ((\<forall>n offset. has_next L (serve n offset)) \<longrightarrow> fetch_dune_result_rows L serve = None)"
  by (simp add: fetch_dune_result_rows_def fetch_loop_serves fetch_loop_endless)

lemma three_pages_serves:
  "serves no_lib three_pages 0 0
     [page [PDict (volume_row ''usdc'' 1), PInt 7] (PInt 2), page [] (PInt 3),
      page [PDict (volume_row ''usdt'' 2)] PNone]"
  by code_simp

lemma three_pages_kept:
  "kept_rows [page [PDict (volume_row ''usdc'' 1), PInt 7] (PInt 2), page [] (PInt 3),
      page [PDict (volume_row ''usdt'' 2)] PNone] = [volume_row ''usdc'' 1, volume_row ''usdt'' 2]"
  by code_simp

lemma endless_pages_has_next: "\<forall>n offset. has_next no_lib (endless_pages n offset)"
  by (simp add: has_next_def endless_pages_def page_def page_rows_def cursor_of_def py_get_def)

theorem pagination_stops_at_absent_cursor_witness:
  "fetch_dune_result_rows no_lib three_pages
     = Some (Inr [volume_row ''usdc'' 1, volume_row ''usdt'' 2])
   \<and> fetch_dune_result_rows no_lib endless_pages = None"
proof -
  note a = pagination_stops_at_absent_cursor [of no_lib three_pages, THEN conjunct1, THEN mp,
      OF three_pages_serves]
  have "fetch_dune_result_rows no_lib three_pages
     = Some (Inr [volume_row ''usdc'' 1, volume_row ''usdt'' 2])"
    unfolding a three_pages_kept by simp
  moreover note pagination_stops_at_absent_cursor [of no_lib endless_pages, THEN conjunct2,
      THEN mp, OF endless_pages_has_next]
  ultimately show ?thesis by (intro conjI)
qed
subsection \<open>A run without USDC volume\<close>

lemma supply_stage_Inr:
  assumes "supply_stage L w = Inr (top_symbols, usdc_supply_usd, total_supply_usd)"
  shows "get_optional_env (env_feishu_webhook_url w) \<noteq> None \<and> distinct top_symbols"
proof -
  from assms obtain url where "get_required_env ''FEISHU_WEBHOOK_URL'' (env_feishu_webhook_url w) = Inr url"
    by (auto simp: supply_stage_def split: sum.splits option.splits)
  then have a: "get_optional_env (env_feishu_webhook_url w) \<noteq> None"
    by (auto simp: get_required_env_def get_optional_env_def Let_def split: if_splits)
  from assms obtain assets where
    "build_top20_symbols_and_usdc_supply L assets = Inr (top_symbols, usdc_supply_usd)"
    by (auto simp: supply_stage_def split: sum.splits option.splits)
  from build_top20_Inr [OF this] spec_top20_props [of L assets]
  have "distinct top_symbols" by simp
  with a show ?thesis by simp
qed

text \<open>
  C1, as amended. In a run that reaches the share computation with volume totals that have
  no entry for usdc, \<^verbatim>\<open>compute_dune_share\<close> returns an unavailable share without raising, and
  \<^verbatim>\<open>run_report\<close> then raises \<^verbatim>\<open>WeeklyReportError\<close>: the run exits with code 1, writes no
  history, and its failure notification carries the supply metrics computed before, the
  unavailable volume share and the missing symbols.
\<close>

theorem missing_usdc_takes_failure_path:
  assumes "should_run_now w"
    and "supply_stage L w = Inr (top_symbols, usdc_supply_usd, total_supply_usd)"
    and "dune_execute w = Inr execution_id"
    and "dune_wait w = Inr ()"
    and "fetch_dune_result_rows L (dune_serve w) = Some (Inr dune_rows)"
    and "extract_dune_symbol_totals L dune_rows = Inr totals"
    and "map_of totals ''usdc'' = None"
  shows "compute_dune_share totals top_symbols
           = Inr (None, missing_of totals top_symbols, present_totals totals top_symbols)
     \<and> run_report L w =
         Some \<lparr>exit_code = 1, saved_history = None,
               delivered = fst (send_feishu_message w
                 (Failure ''Dune query result did not include usable USDC transfer volume data''
                    [(''total_supply_usd'', Some total_supply_usd),
                     (''usdc_supply_usd'', Some usdc_supply_usd),
                     (''usdc_supply_share'', Some (fdiv usdc_supply_usd total_supply_usd)),
                     (''usdc_transfer_volume_share_7d'', None)]
                    (Some (report_window w)) (missing_of totals top_symbols)))\<rparr>"
proof -
  from supply_stage_Inr [OF assms(2)] obtain url where
    url: "get_optional_env (env_feishu_webhook_url w) = Some url" and d: "distinct top_symbols"
    by auto
  from d have s: "split_symbols totals top_symbols [] []
                 = (missing_of totals top_symbols, present_totals totals top_symbols)"
    using split_symbols_eq [of top_symbols "[]" totals "[]"] by simp
  have "map_of (present_totals totals top_symbols) ''usdc'' = None"
    using split_symbols_map_of [of totals top_symbols "[]" "[]" "''usdc''"] assms(7) s by simp
  with s have c: "compute_dune_share totals top_symbols
           = Inr (None, missing_of totals top_symbols, present_totals totals top_symbols)"
    by (simp add: compute_dune_share_def)
  have v: "volume_stage L w top_symbols = Some (Inr (None, missing_of totals top_symbols))"
    by (simp add: volume_stage_def assms c)
  have m: "AList.update ''usdc_transfer_volume_share_7d'' None
             (supply_metrics total_supply_usd usdc_supply_usd) =
           [(''total_supply_usd'', Some total_supply_usd),
            (''usdc_supply_usd'', Some usdc_supply_usd),
            (''usdc_supply_share'', Some (fdiv usdc_supply_usd total_supply_usd)),
            (''usdc_transfer_volume_share_7d'', None)]"
    by (simp add: supply_metrics_def initial_metrics_def)
  have "run_report L w =
         Some \<lparr>exit_code = 1, saved_history = None,
               delivered = fst (send_feishu_message w
                 (Failure ''Dune query result did not include usable USDC transfer volume data''
                    [(''total_supply_usd'', Some total_supply_usd),
                     (''usdc_supply_usd'', Some usdc_supply_usd),
                     (''usdc_supply_share'', Some (fdiv usdc_supply_usd total_supply_usd)),
                     (''usdc_transfer_volume_share_7d'', None)]
                    (Some (report_window w)) (missing_of totals top_symbols)))\<rparr>"
    using assms(1)
    by (simp add: run_report_def assms(2) v m failure_path_def notify_failure_def url Let_def)
  with c show ?thesis by simp
qed

lemma usdt_only_should_run: "should_run_now usdt_only_world"
  by code_simp

lemma usdt_only_supply:
  "supply_stage run_lib usdt_only_world = Inr ([''usdt'', ''usdc'', ''dai''], 30, 240)"
  by code_simp

lemma usdt_only_rows:
  "fetch_dune_result_rows run_lib (dune_serve usdt_only_world) = Some (Inr [volume_row ''usdt'' 2])"
proof -
  have "serves run_lib (dune_serve usdt_only_world) 0 0 [page [PDict (volume_row ''usdt'' 2)] PNone]"
    by code_simp
  from fetch_loop_serves [OF this, of "[]"]
  have "fetch_loop run_lib (dune_serve usdt_only_world) 0 0 []
          = Some (Inr (kept_rows [page [PDict (volume_row ''usdt'' 2)] PNone]))"
    by simp
  moreover have "kept_rows [page [PDict (volume_row ''usdt'' 2)] PNone] = [volume_row ''usdt'' 2]"
    by code_simp
  ultimately show ?thesis by (simp add: fetch_dune_result_rows_def)
qed

lemma usdt_only_totals:
  "extract_dune_symbol_totals run_lib [volume_row ''usdt'' 2] = Inr [(''usdt'', 2)]"
  by code_simp

lemma usdt_only_share:
  "compute_dune_share [(''usdt'', 2)] [''usdt'', ''usdc'', ''dai'']
       = Inr (None, [''usdc'', ''dai''], [(''usdt'', 2)])"
  by code_simp

lemma usdt_only_exec:
  "dune_execute usdt_only_world = Inr ''01'' \<and> dune_wait usdt_only_world = Inr ()
   \<and> get_optional_env (env_feishu_webhook_url usdt_only_world) = Some ''https://hook.example''
   \<and> report_window usdt_only_world = (''2025-12-29'', ''2026-01-04'')"
  by code_simp

lemma usdt_only_webhook: "webhook usdt_only_world m = None"
  by (simp add: usdt_only_world_def)

lemma supply_share_example: "fdiv 30 240 = 1 / 8"
  by code_simp

text \<open>
  C1, as stated, fails: in this run every request succeeds and the totals have no entry for
  usdc; the share is unavailable, the run exits with code 1 and delivers the failure card.
\<close>

theorem missing_usdc_run_fails:
  "should_run_now usdt_only_world
   \<and> extract_dune_symbol_totals run_lib [volume_row ''usdt'' 2] = Inr [(''usdt'', 2)]
   \<and> compute_dune_share [(''usdt'', 2)] [''usdt'', ''usdc'', ''dai'']
       = Inr (None, [''usdc'', ''dai''], [(''usdt'', 2)])
   \<and> run_report run_lib usdt_only_world =
       Some \<lparr>exit_code = 1, saved_history = None,
             delivered =
               [Card (Failure ''Dune query result did not include usable USDC transfer volume data''
                  [(''total_supply_usd'', Some 240), (''usdc_supply_usd'', Some 30),
                   (''usdc_supply_share'', Some (1 / 8)),
                   (''usdc_transfer_volume_share_7d'', None)]
                  (Some (''2025-12-29'', ''2026-01-04'')) [''usdc'', ''dai''])]\<rparr>"
proof -
  have v: "volume_stage run_lib usdt_only_world [''usdt'', ''usdc'', ''dai'']
             = Some (Inr (None, [''usdc'', ''dai'']))"
    by (simp add: volume_stage_def usdt_only_exec usdt_only_rows usdt_only_totals usdt_only_share)
  have "run_report run_lib usdt_only_world =
       Some \<lparr>exit_code = 1, saved_history = None,
             delivered =
               [Card (Failure ''Dune query result did not include usable USDC transfer volume data''
                  [(''total_supply_usd'', Some 240), (''usdc_supply_usd'', Some 30),
                   (''usdc_supply_share'', Some (1 / 8)),
                   (''usdc_transfer_volume_share_7d'', None)]
                  (Some (''2025-12-29'', ''2026-01-04'')) [''usdc'', ''dai''])]\<rparr>"
    using usdt_only_should_run
    by (simp add: run_report_def usdt_only_supply v failure_path_def notify_failure_def
        usdt_only_exec usdt_only_webhook send_feishu_message_def supply_metrics_def
        initial_metrics_def
        supply_share_example Let_def)
  with usdt_only_should_run usdt_only_totals usdt_only_share show ?thesis by (intro conjI)
qed

theorem missing_usdc_takes_failure_path_witness:
  "exit_code (the (run_report run_lib usdt_only_world)) = 1
   \<and> saved_history (the (run_report run_lib usdt_only_world)) = None
   \<and> compute_dune_share [(''usdt'', 2)] [''usdt'', ''usdc'', ''dai'']
       = Inr (None, missing_of [(''usdt'', 2)] [''usdt'', ''usdc'', ''dai''],
              present_totals [(''usdt'', 2)] [''usdt'', ''usdc'', ''dai''])"
proof -
  have u: "map_of [(''usdt'', 2 :: real)] ''usdc'' = None" by simp
  note t = missing_usdc_takes_failure_path [OF usdt_only_should_run usdt_only_supply
      usdt_only_exec [THEN conjunct1] usdt_only_exec [THEN conjunct2, THEN conjunct1]
      usdt_only_rows usdt_only_totals u]
  from t show ?thesis by simp
qed
subsection \<open>History truncation\<close>

text \<open>
  C7. Saving a history to which a new entry was appended persists at most 52 entries, which
  are the most recent ones in their order (a suffix of the history); appending a 53rd entry
  to a history of 52 persists exactly 52 entries, the oldest one removed and the others in
  their order followed by the new entry.
\<close>

theorem save_history_fifo:
  "length (save_history (history @ [entry])) \<le> 52
   \<and> suffix (save_history (history @ [entry])) (history @ [entry])
   \<and> (length history < 52 \<longrightarrow> save_history (history @ [entry]) = history @ [entry])
   \<and> (length history = 52 \<longrightarrow>
        length (save_history (history @ [entry])) = 52
        \<and> save_history (history @ [entry]) = tl history @ [entry])"
proof -
  have "suffix (drop n xs) xs" for n and xs :: "'a list"
    by (rule suffix_drop)
  moreover have "length history = 52 \<Longrightarrow> drop (Suc 0) history = tl history"
    by (simp add: drop_Suc)
  ultimately show ?thesis
    by (auto simp: save_history_def MAX_HISTORY_ITEMS_def)
qed

theorem save_history_fifo_witness:
  "save_history ([1 ..< 53] @ [53 :: nat]) = [2 ..< 54]
   \<and> save_history ([1 ..< 4] @ [4 :: nat]) = [1, 2, 3, 4]"
proof -
  have len: "length [1 ..< 53 :: nat] = 52" by simp
  have "save_history ([1 ..< 53] @ [53 :: nat]) = tl [1 ..< 53] @ [53]"
    using save_history_fifo [of "[1 ..< 53]" "53 :: nat"] len by blast
  moreover have "tl [1 ..< 53] @ [53 :: nat] = [2 ..< 54]"
    by code_simp
  moreover have "save_history ([1 ..< 4] @ [4 :: nat]) = [1 ..< 4] @ [4]"
    using save_history_fifo [of "[1 ..< 4]" "4 :: nat"] by simp
  moreover have "[1 ..< 4] @ [4 :: nat] = [1, 2, 3, 4]"
    by code_simp
  ultimately show ?thesis by simp
qed

end
